theory Spec2Isabelle
  imports Complex_Main
begin

section \<open>The connection factory (database.py)\<close>

text \<open>
  \<^verbatim>\<open>get_db_connection(db='', user='', passwd='', host='', port='', autocommit=True)\<close>
  calls the driver's constructor \<^verbatim>\<open>PostgresqlDatabase(db, user=user, password=passwd,
  host=host, port=port)\<close> and returns what it returns. The constructor belongs to the
  driver library, so it is a parameter here: any function from the database name, the
  keyword arguments and the state of the driver to a handle, or to an error when the
  driver raises, and the driver's new state.
\<close>

record connect_kwargs =
  user :: string
  password :: string
  host :: string
  port :: string

definition get_db_connection ::
  "(string \<Rightarrow> connect_kwargs \<Rightarrow> 's \<Rightarrow> ('e + 'h) \<times> 's) \<Rightarrow>
     string \<Rightarrow> string \<Rightarrow> string \<Rightarrow> string \<Rightarrow> string \<Rightarrow> bool \<Rightarrow> 's \<Rightarrow> ('e + 'h) \<times> 's" where
  "get_db_connection PostgresqlDatabase db usr passwd hst prt autocommit s =
     PostgresqlDatabase db \<lparr>user = usr, password = passwd, host = hst, port = prt\<rparr> s"

text \<open>
  A constructor to run the factory on: it counts its calls, keeps the database name and
  the keyword arguments in the handle, and raises when no host is given.
\<close>

record database_handle =
  database :: string
  connect_params :: connect_kwargs

datatype driver_error = ImproperlyConfigured string

definition sample_driver ::
  "string \<Rightarrow> connect_kwargs \<Rightarrow> nat \<Rightarrow> (driver_error + database_handle) \<times> nat" where
  "sample_driver db kw calls =
     (if host kw = [] then (Inl (ImproperlyConfigured db), Suc calls)
      else (Inr \<lparr>database = db, connect_params = kw\<rparr>, Suc calls))"

section \<open>Enumerated fields (model.py)\<close>

subsection \<open>Python enumerations\<close>

text \<open>
  The body of an \<^verbatim>\<open>Enum\<close> class is a sequence of declarations \<^verbatim>\<open>NAME = code\<close>, kept here
  in the order of the source. When the class is created, Python goes through the
  declarations in order: a code that no earlier member carries makes a new member with
  that name; a code that an earlier member carries makes the name an alias of that
  member. \<^verbatim>\<open>cls[name]\<close> looks the name up among members and aliases and raises
  \<^verbatim>\<open>KeyError\<close> when it is not there. The member found carries its own (first) name.
\<close>

type_synonym enum_class = "(string \<times> int) list"

datatype member = Member (member_name: string) (member_value: int)

datatype error =
    KeyError string
  | NameError string
  | InvalidOperation
  | TypeMismatch
  | DoesNotExist
  | IntegrityError string
  | OperationalError string

fun add_member :: "(string \<times> member) list \<Rightarrow> string \<times> int \<Rightarrow> (string \<times> member) list" where
  "add_member mm (n, v) =
     (case find (\<lambda>(k, m). member_value m = v) mm of
        Some (k, m) \<Rightarrow> mm @ [(n, m)]
      | None \<Rightarrow> mm @ [(n, Member n v)])"

definition member_map :: "enum_class \<Rightarrow> (string \<times> member) list" where
  "member_map cls = foldl add_member [] cls"

definition getitem :: "enum_class \<Rightarrow> string \<Rightarrow> error + member" where
  "getitem cls n =
     (case map_of (member_map cls) n of
        None \<Rightarrow> Inl (KeyError n)
      | Some m \<Rightarrow> Inr m)"

text \<open>The first name declared with a code (the given name when the code is not declared).\<close>

definition first_name :: "enum_class \<Rightarrow> int \<Rightarrow> string \<Rightarrow> string" where
  "first_name cls v n = (case find (\<lambda>(k, c). c = v) cls of Some (k, c) \<Rightarrow> k | None \<Rightarrow> n)"

subsection \<open>The enum classes of the source\<close>

definition ClientTypeField :: enum_class where
  "ClientTypeField =
     [(''FINANCIAL_INSTITUTION'', 10), (''INBOUND_DATA_PARTNER'', 20),
      (''OUTBOUND_BEHAVIOR_POINT_ENGINE'', 30), (''DATA_WAREHOUSE_STAGING'', 40)]"

definition StatusField :: enum_class where
  "StatusField = [(''PENDING'', 10), (''ACTIVE'', 20), (''DISABLED'', 30)]"

definition EventFrequencyField :: enum_class where
  "EventFrequencyField =
     [(''EVERY_MINUTE'', 5), (''HOURLY'', 10), (''DAILY'', 20), (''WEEKLY'', 30),
      (''MONTHLY'', 40), (''QUARTERLY'', 50), (''YEARLY'', 60)]"

definition BehaviorTypeField :: enum_class where
  "BehaviorTypeField =
     [(''MINIMUM_ACCOUNT_BALANCE'', 10), (''MAINTAIN_ACCOUNT_BALANCE'', 10),
      (''ADOPT_E_STATEMENT'', 30), (''OPEN_SAFE_DEPOSIT_BOX'', 40)]"

definition AccountTypeField :: enum_class where
  "AccountTypeField =
     [(''ALL'', 1), (''INTERNAL'', 10), (''CHECKING'', 20), (''CREDIT_CARD'', 30),
      (''SAVING'', 40), (''MONEY_MARKET'', 50), (''MORTGAGE'', 60), (''LOAN'', 70),
      (''BUSINESS_LOAN'', 70), (''PERSONAL_LOAN'', 70)]"

definition DestinationSystemField :: enum_class where
  "DestinationSystemField = [(''DATA_WAREHOUSE_STAGING'', 10), (''BEHAVIOR_POINT_ENGINE'', 20)]"

definition BatchStatusField :: enum_class where
  "BatchStatusField =
     [(''NEW'', 10), (''PENDING'', 10), (''STARTED'', 20), (''DELIVERED'', 30),
      (''SUCCESS'', 40), (''PARTIAL_FAILURE'', 50), (''FAILURE'', 60)]"

subsection \<open>Values\<close>

text \<open>
  A point in time is a number of microseconds on the clock's time line, a date a number
  of days, a fixed-point number (Python's \<^verbatim>\<open>Decimal\<close>) a rational. A value of a record's
  field, in memory or in a row of the database, is \<^verbatim>\<open>None\<close> or one of these; an enum
  column read back from the database holds a member of its enum class.
\<close>

type_synonym datetime = int

datatype val =
    NoneV
  | IntV int
  | TextV string
  | DateTimeV datetime
  | DateV int
  | DecimalV rat
  | MemberV member

subsection \<open>EnumField\<close>

text \<open>
  \<^verbatim>\<open>db_value\<close> and \<^verbatim>\<open>python_value\<close> return \<^verbatim>\<open>None\<close> for \<^verbatim>\<open>None\<close> and send every other value
  through \<^verbatim>\<open>coerce_to_unicode\<close>. Python looks that name up in the globals of model.py
  when the function runs. model.py imports \<^verbatim>\<open>Model\<close>, \<^verbatim>\<open>CharField\<close>, \<^verbatim>\<open>TextField\<close>,
  \<^verbatim>\<open>IntegerField\<close>, \<^verbatim>\<open>DecimalField\<close>, \<^verbatim>\<open>DateTimeField\<close> and \<^verbatim>\<open>DateField\<close> from the ORM
  library and defines no function of that name: in the module as written the name is
  unbound and the lookup raises \<^verbatim>\<open>NameError\<close>. The binding of the name is a parameter of
  the two functions, \<open>None\<close> when the name is unbound and \<open>Some f\<close> when it is bound to a
  conversion \<open>f\<close> to text; \<open>model_py\<close> is the binding in the source.
\<close>

type_synonym binding = "(val \<Rightarrow> string) option"

definition model_py :: binding where
  "model_py = None"

definition coerce_to_unicode :: "binding \<Rightarrow> val \<Rightarrow> error + string" where
  "coerce_to_unicode g v =
     (case g of
        None \<Rightarrow> Inl (NameError ''coerce_to_unicode'')
      | Some f \<Rightarrow> Inr (f v))"

definition db_value :: "binding \<Rightarrow> val \<Rightarrow> error + val" where
  "db_value g value =
     (if value = NoneV then Inr value
      else (case coerce_to_unicode g value of
              Inl e \<Rightarrow> Inl e
            | Inr s \<Rightarrow> Inr (TextV s)))"

definition python_value :: "binding \<Rightarrow> enum_class \<Rightarrow> val \<Rightarrow> error + val" where
  "python_value g cls value =
     (if value = NoneV then Inr value
      else (case coerce_to_unicode g value of
              Inl e \<Rightarrow> Inl e
            | Inr s \<Rightarrow>
                (case getitem cls s of
                   Inl e \<Rightarrow> Inl e
                 | Inr m \<Rightarrow> Inr (MemberV m))))"

text \<open>
  A conversion to bind the name to: the library's conversion returns a text as it is
  (what it makes of other values is not used here).
\<close>

definition text_unchanged :: "val \<Rightarrow> string" where
  "text_unchanged v = (case v of TextV s \<Rightarrow> s | _ \<Rightarrow> [])"

section \<open>Records and their fields (model.py)\<close>

subsection \<open>Field declarations\<close>

text \<open>
  The field classes the source uses. \<^verbatim>\<open>DecimalField\<close> carries \<^verbatim>\<open>max_digits\<close>,
  \<^verbatim>\<open>decimal_places\<close> and \<^verbatim>\<open>auto_round\<close>; an enum field its class; a foreign key the
  name of the table it points to. A default is absent, a constant, or the callable
  \<^verbatim>\<open>DT.now\<close>. The arguments that only name things in the database (\<^verbatim>\<open>db_column\<close>,
  \<^verbatim>\<open>sequence\<close>, \<^verbatim>\<open>index\<close>, \<^verbatim>\<open>related_name\<close>, \<^verbatim>\<open>to_field\<close>) are left out: rows are
  keyed by field name here.
\<close>

datatype field_type =
    IntegerField
  | CharField
  | TextField
  | DateTimeField
  | DateField
  | DecimalField nat nat bool
  | EnumField enum_class
  | ForeignKeyField string

datatype default_value = NoDefault | Constant val | DT_now

record field =
  field_name :: string
  field_type :: field_type
  null :: bool
  unique :: bool
  default :: default_value

record model_meta =
  db_table :: string
  schema :: string
  only_save_dirty :: bool
  primary_key :: string
  sorted_fields :: "field list"

definition fld :: "string \<Rightarrow> field_type \<Rightarrow> field" where
  "fld n t = \<lparr>field_name = n, field_type = t, null = False, unique = False, default = NoDefault\<rparr>"

definition nullable :: "field \<Rightarrow> field" where
  "nullable f = f\<lparr>null := True\<rparr>"

definition uniq :: "field \<Rightarrow> field" where
  "uniq f = f\<lparr>unique := True\<rparr>"

definition with_default :: "default_value \<Rightarrow> field \<Rightarrow> field" where
  "with_default d f = f\<lparr>default := d\<rparr>"

text \<open>
  \<^verbatim>\<open>BaseModel.Meta\<close>: every entity is in the schema \<^verbatim>\<open>behavior\<close> and saves its dirty
  fields only. Every entity of the source declares the integer primary key \<^verbatim>\<open>id\<close> first
  and the timestamps \<^verbatim>\<open>inserted\<close> and \<^verbatim>\<open>updated\<close>, both with \<^verbatim>\<open>default=DT.now\<close>, last.
\<close>

definition entity :: "string \<Rightarrow> field list \<Rightarrow> model_meta" where
  "entity table fs =
     \<lparr>db_table = table, schema = ''behavior'', only_save_dirty = True, primary_key = ''id'',
      sorted_fields = fld ''id'' IntegerField # fs @
        [with_default DT_now (fld ''inserted'' DateTimeField),
         with_default DT_now (fld ''updated'' DateTimeField)]\<rparr>"

subsection \<open>The entities of the source\<close>

definition Client :: model_meta where
  "Client = entity ''clients''
     [uniq (fld ''title'' CharField),
      fld ''type'' (EnumField ClientTypeField),
      with_default (Constant (TextV ''PENDING'')) (fld ''status'' (EnumField StatusField))]"

definition EventType :: model_meta where
  "EventType = entity ''event_types''
     [uniq (fld ''title'' CharField),
      fld ''description'' CharField,
      fld ''behavior_type'' (EnumField BehaviorTypeField),
      fld ''frequency'' (EnumField EventFrequencyField),
      fld ''stubbed_extract_script'' TextField]"

definition ClientConfig :: model_meta where
  "ClientConfig = entity ''client_configs''
     [fld ''client_id'' (ForeignKeyField ''clients''),
      fld ''event_type_id'' (ForeignKeyField ''event_types''),
      fld ''effective_date'' DateField,
      nullable (fld ''expiration_date'' DateField),
      with_default (Constant (TextV ''PENDING'')) (fld ''status'' (EnumField StatusField)),
      fld ''account_type'' (EnumField AccountTypeField),
      nullable (fld ''product_code'' CharField),
      nullable (fld ''balance_floor'' (DecimalField 15 4 True))]"

definition Destination :: model_meta where
  "Destination = entity ''destinations''
     [fld ''destination_system'' (EnumField DestinationSystemField)]"

definition DestinationConfig :: model_meta where
  "DestinationConfig = entity ''destination_configs''
     [fld ''destination_id'' (ForeignKeyField ''destinations''),
      nullable (fld ''key'' CharField),
      nullable (fld ''value'' CharField)]"

definition EventBatch :: model_meta where
  "EventBatch = entity ''batches''
     [fld ''client_config_id'' (ForeignKeyField ''client_configs''),
      fld ''status'' (EnumField BatchStatusField),
      nullable (fld ''delivery_system_event_batch_id'' IntegerField)]"

definition EventBatchDelivery :: model_meta where
  "EventBatchDelivery = entity ''event_batch_deliveries''
     [fld ''event_batch_id'' (ForeignKeyField ''batches''),
      fld ''status'' (EnumField BatchStatusField),
      fld ''status_message'' TextField]"

definition Event :: model_meta where
  "Event = entity ''events''
     [fld ''event_batch_id'' (ForeignKeyField ''batches''),
      fld ''quantity'' (DecimalField 12 4 True),
      fld ''event_timestamp'' DateTimeField]"

definition EventBatchDeliveryErrorEvent :: model_meta where
  "EventBatchDeliveryErrorEvent = entity ''event_batch_delivery_error_events''
     [fld ''event_batch_delivery_id'' (ForeignKeyField ''event_batch_deliveries''),
      fld ''event_id'' (ForeignKeyField ''events'')]"

definition entities :: "model_meta list" where
  "entities = [Client, EventType, ClientConfig, Destination, DestinationConfig, EventBatch,
     EventBatchDelivery, Event, EventBatchDeliveryErrorEvent]"

subsection \<open>Instances\<close>

text \<open>
  An instance holds the values of its fields (the library's \<^verbatim>\<open>_data\<close>) and the names of
  the fields assigned since it was loaded (\<^verbatim>\<open>_dirty\<close>). Reading a field that holds no
  value gives \<^verbatim>\<open>None\<close>; assigning to a field stores the value and marks the field dirty.
  Assigning to a name that is not a field of the entity makes a plain attribute, which
  is no part of the record.
\<close>

record model_instance =
  data :: "(string \<times> val) list"
  dirty :: "string set"

fun dict_set :: "(string \<times> val) list \<Rightarrow> string \<Rightarrow> val \<Rightarrow> (string \<times> val) list" where
  "dict_set [] k v = [(k, v)]"
| "dict_set ((k', v') # kvs) k v =
     (if k' = k then (k, v) # kvs else (k', v') # dict_set kvs k v)"

definition dict_pop :: "(string \<times> val) list \<Rightarrow> string \<Rightarrow> (string \<times> val) list" where
  "dict_pop kvs k = filter (\<lambda>(k', v). k' \<noteq> k) kvs"

definition field_names :: "model_meta \<Rightarrow> string list" where
  "field_names meta = map field_name (sorted_fields meta)"

definition getattr :: "model_instance \<Rightarrow> string \<Rightarrow> val" where
  "getattr self n = (case map_of (data self) n of None \<Rightarrow> NoneV | Some v \<Rightarrow> v)"

definition setattr :: "model_meta \<Rightarrow> model_instance \<Rightarrow> string \<Rightarrow> val \<Rightarrow> model_instance" where
  "setattr meta self n v =
     (if n \<in> set (field_names meta)
      then self\<lparr>data := dict_set (data self) n v, dirty := insert n (dirty self)\<rparr>
      else self)"

subsection \<open>Conversions between memory and database\<close>

text \<open>
  \<^verbatim>\<open>DecimalField(decimal_places=p, auto_round=True)\<close> writes a number through
  \<^verbatim>\<open>Decimal.quantize\<close> with the exponent \<^verbatim>\<open>10 ** -p\<close> and the default rounding, half to
  even; \<^verbatim>\<open>quantize\<close> raises \<^verbatim>\<open>InvalidOperation\<close> when the result needs more than the 28
  digits of the default context. Zero is written as zero.
\<close>

definition round_half_even :: "rat \<Rightarrow> int" where
  "round_half_even x =
     (let f = \<lfloor>x\<rfloor>; d = x - of_int f
      in if d < 1 / 2 then f
         else if 1 / 2 < d then f + 1
         else if even f then f else f + 1)"

definition quantize :: "nat \<Rightarrow> rat \<Rightarrow> error + rat" where
  "quantize places x =
     (let n = round_half_even (x * 10 ^ places)
      in if 10 ^ 28 \<le> \<bar>n\<bar> then Inl InvalidOperation
         else Inr (of_int n / 10 ^ places))"

definition decimal_db_value :: "nat \<Rightarrow> bool \<Rightarrow> rat \<Rightarrow> error + val" where
  "decimal_db_value places auto_round x =
     (if x = 0 then Inr (DecimalV 0)
      else if auto_round then
        (case quantize places x of Inl e \<Rightarrow> Inl e | Inr y \<Rightarrow> Inr (DecimalV y))
      else Inr (DecimalV x))"

text \<open>
  What a field writes to the database and what it makes of a value read from it. An enum
  field is \<^verbatim>\<open>db_value\<close> and \<^verbatim>\<open>python_value\<close> of the source, on every value. The other
  kinds are the library's and leave a value of their own kind as it is; for them a value
  of another kind than the field's is outside this model and reported as
  \<^verbatim>\<open>TypeMismatch\<close>.
\<close>

fun field_db_value :: "binding \<Rightarrow> field_type \<Rightarrow> val \<Rightarrow> error + val" where
  "field_db_value g (EnumField cls) v = db_value g v"
| "field_db_value g (DecimalField digits places auto_round) (DecimalV x) =
     decimal_db_value places auto_round x"
| "field_db_value g (DecimalField digits places auto_round) (IntV i) =
     decimal_db_value places auto_round (of_int i)"
| "field_db_value g t NoneV = Inr NoneV"
| "field_db_value g IntegerField (IntV i) = Inr (IntV i)"
| "field_db_value g (ForeignKeyField target) (IntV i) = Inr (IntV i)"
| "field_db_value g CharField (TextV s) = Inr (TextV s)"
| "field_db_value g TextField (TextV s) = Inr (TextV s)"
| "field_db_value g DateTimeField (DateTimeV t) = Inr (DateTimeV t)"
| "field_db_value g DateField (DateV d) = Inr (DateV d)"
| "field_db_value g t v = Inl TypeMismatch"

fun field_python_value :: "binding \<Rightarrow> field_type \<Rightarrow> val \<Rightarrow> error + val" where
  "field_python_value g (EnumField cls) v = python_value g cls v"
| "field_python_value g t NoneV = Inr NoneV"
| "field_python_value g (DecimalField digits places auto_round) (DecimalV x) = Inr (DecimalV x)"
| "field_python_value g IntegerField (IntV i) = Inr (IntV i)"
| "field_python_value g (ForeignKeyField target) (IntV i) = Inr (IntV i)"
| "field_python_value g CharField (TextV s) = Inr (TextV s)"
| "field_python_value g TextField (TextV s) = Inr (TextV s)"
| "field_python_value g DateTimeField (DateTimeV t) = Inr (DateTimeV t)"
| "field_python_value g DateField (DateV d) = Inr (DateV d)"
| "field_python_value g t v = Inl TypeMismatch"

fun convert_dict ::
  "(field_type \<Rightarrow> val \<Rightarrow> error + val) \<Rightarrow> field list \<Rightarrow> (string \<times> val) list \<Rightarrow>
     error + (string \<times> val) list" where
  "convert_dict conv fs [] = Inr []"
| "convert_dict conv fs ((k, v) # kvs) =
     (case find (\<lambda>f. field_name f = k) fs of
        None \<Rightarrow> Inl (KeyError k)
      | Some f \<Rightarrow>
          (case conv (field_type f) v of
             Inl e \<Rightarrow> Inl e
           | Inr w \<Rightarrow>
               (case convert_dict conv fs kvs of
                  Inl e \<Rightarrow> Inl e
                | Inr ws \<Rightarrow> Inr ((k, w) # ws))))"

subsection \<open>The database\<close>

text \<open>
  The database is outside the repository: it is a parameter, three operations on a state
  of the database. Each returns an error (what the database raises: a violated
  constraint, a lost connection) or its result, and the new state. Inserting a row
  returns the key of the new row, updating the rows with a key returns their number,
  selecting returns the rows with a key.
\<close>

record 'db database =
  insert_row :: "string \<Rightarrow> string \<Rightarrow> (string \<times> val) list \<Rightarrow> 'db \<Rightarrow> (error + val) \<times> 'db"
  update_rows ::
    "string \<Rightarrow> string \<Rightarrow> val \<Rightarrow> (string \<times> val) list \<Rightarrow> 'db \<Rightarrow> (error + nat) \<times> 'db"
  select_rows :: "string \<Rightarrow> string \<Rightarrow> val \<Rightarrow> 'db \<Rightarrow> (error + (string \<times> val) list list) \<times> 'db"

subsection \<open>Saving\<close>

text \<open>
  The library's \<^verbatim>\<open>Model.save(force_insert=False, only=None)\<close>, which \<^verbatim>\<open>BaseModel.save\<close>
  calls: with \<^verbatim>\<open>only_save_dirty\<close> and without \<^verbatim>\<open>force_insert\<close> it keeps the dirty fields
  only, and returns at once when there is none; an instance with a key is updated in
  the database under that key, one without is inserted and takes the key the database
  returns; after a statement that did not raise, no field is dirty. The values of the
  row go through the fields' \<^verbatim>\<open>db_value\<close>, those of an enum field through the one of the
  source.
\<close>

definition prune_fields :: "(string \<times> val) list \<Rightarrow> string set \<Rightarrow> (string \<times> val) list" where
  "prune_fields field_dict only = filter (\<lambda>(k, v). k \<in> only) field_dict"

definition Model_save ::
  "binding \<Rightarrow> model_meta \<Rightarrow> 'db database \<Rightarrow> bool \<Rightarrow> string list \<Rightarrow> model_instance \<Rightarrow> 'db \<Rightarrow>
     (error + nat) \<times> model_instance \<times> 'db" where
  "Model_save g meta db_ops force_insert only self db =
     (let pk = primary_key meta;
          pk_value = getattr self pk;
          use_dirty = (only = [] \<and> only_save_dirty meta \<and> \<not> force_insert);
          field_dict =
            (if only \<noteq> [] then prune_fields (data self) (set only)
             else if use_dirty then prune_fields (data self) (dirty self)
             else data self)
      in if use_dirty \<and> field_dict = [] then (Inr 0, self\<lparr>dirty := {}\<rparr>, db)
         else if pk_value \<noteq> NoneV \<and> \<not> force_insert then
           (case convert_dict (field_db_value g) (sorted_fields meta) (dict_pop field_dict pk) of
              Inl e \<Rightarrow> (Inl e, self, db)
            | Inr row \<Rightarrow>
                (case update_rows db_ops (db_table meta) pk pk_value row db of
                   (Inl e, db') \<Rightarrow> (Inl e, self, db')
                 | (Inr n, db') \<Rightarrow> (Inr n, self\<lparr>dirty := {}\<rparr>, db')))
         else
           (case convert_dict (field_db_value g) (sorted_fields meta) field_dict of
              Inl e \<Rightarrow> (Inl e, self, db)
            | Inr row \<Rightarrow>
                (case insert_row db_ops (db_table meta) pk row db of
                   (Inl e, db') \<Rightarrow> (Inl e, self, db')
                 | (Inr pk_from_cursor, db') \<Rightarrow>
                     (let new_pk = (if pk_from_cursor \<noteq> NoneV then pk_from_cursor else pk_value)
                      in (Inr 1, (setattr meta self pk new_pk)\<lparr>dirty := {}\<rparr>, db')))))"

text \<open>
  \<^verbatim>\<open>BaseModel.save\<close> of the source: assign the reading of the clock to \<^verbatim>\<open>updated\<close>, then
  call the library's save with the same arguments. \<^verbatim>\<open>now\<close> is what \<^verbatim>\<open>DT.now()\<close> returns
  in this call. The result is what the call returns or raises, the instance and the
  database after it.
\<close>

definition save ::
  "binding \<Rightarrow> model_meta \<Rightarrow> 'db database \<Rightarrow> datetime \<Rightarrow> bool \<Rightarrow> string list \<Rightarrow>
     model_instance \<Rightarrow> 'db \<Rightarrow> (error + nat) \<times> model_instance \<times> 'db" where
  "save g meta db_ops now force_insert only self db =
     Model_save g meta db_ops force_insert only
       (setattr meta self ''updated'' (DateTimeV now)) db"

subsection \<open>Creating and loading\<close>

text \<open>
  The library's constructor starts from the declared defaults, a callable default being
  called (\<^verbatim>\<open>clock n\<close> is what \<^verbatim>\<open>DT.now()\<close> returns for the field \<^verbatim>\<open>n\<close>), marks them
  dirty, and assigns the given values. \<^verbatim>\<open>create\<close> builds an instance and saves it with
  \<^verbatim>\<open>force_insert\<close>; \<^verbatim>\<open>get\<close> selects the row with a key and converts its columns.
\<close>

fun get_default_dict :: "field list \<Rightarrow> (string \<Rightarrow> datetime) \<Rightarrow> (string \<times> val) list" where
  "get_default_dict [] clock = []"
| "get_default_dict (f # fs) clock =
     (case default f of
        NoDefault \<Rightarrow> get_default_dict fs clock
      | Constant v \<Rightarrow> (field_name f, v) # get_default_dict fs clock
      | DT_now \<Rightarrow> (field_name f, DateTimeV (clock (field_name f))) # get_default_dict fs clock)"

definition init :: "model_meta \<Rightarrow> (string \<Rightarrow> datetime) \<Rightarrow> (string \<times> val) list \<Rightarrow> model_instance" where
  "init meta clock kwargs =
     foldl (\<lambda>self (k, v). setattr meta self k v)
       \<lparr>data = get_default_dict (sorted_fields meta) clock,
        dirty = set (map fst (get_default_dict (sorted_fields meta) clock))\<rparr>
       kwargs"

definition create ::
  "binding \<Rightarrow> model_meta \<Rightarrow> 'db database \<Rightarrow> (string \<Rightarrow> datetime) \<Rightarrow> datetime \<Rightarrow>
     (string \<times> val) list \<Rightarrow> 'db \<Rightarrow> (error + model_instance) \<times> 'db" where
  "create g meta db_ops clock now kwargs db =
     (case save g meta db_ops now True [] (init meta clock kwargs) db of
        (Inl e, inst, db') \<Rightarrow> (Inl e, db')
      | (Inr n, inst, db') \<Rightarrow> (Inr (inst\<lparr>dirty := {}\<rparr>), db'))"

definition get ::
  "binding \<Rightarrow> model_meta \<Rightarrow> 'db database \<Rightarrow> val \<Rightarrow> 'db \<Rightarrow> (error + model_instance) \<times> 'db" where
  "get g meta db_ops k db =
     (case select_rows db_ops (db_table meta) (primary_key meta) k db of
        (Inl e, db') \<Rightarrow> (Inl e, db')
      | (Inr [], db') \<Rightarrow> (Inl DoesNotExist, db')
      | (Inr (row # rest), db') \<Rightarrow>
          (case convert_dict (field_python_value g) (sorted_fields meta) row of
             Inl e \<Rightarrow> (Inl e, db')
           | Inr d \<Rightarrow> (Inr \<lparr>data = d, dirty = {}\<rparr>, db')))"

subsection \<open>A database to run the operations on\<close>

text \<open>
  Rows are kept with the name of their table. A row inserted without a key takes the
  next value of the sequence; a key that is already in the table violates the primary
  key and raises. An update sets the given columns in the rows with the key and leaves
  their other columns as they are.
\<close>

record store =
  table_rows :: "(string \<times> (string \<times> val) list) list"
  next_id :: int

definition has_key :: "string \<Rightarrow> string \<Rightarrow> val \<Rightarrow> string \<times> (string \<times> val) list \<Rightarrow> bool" where
  "has_key table pk k tr = (fst tr = table \<and> map_of (snd tr) pk = Some k)"

definition store_insert ::
  "string \<Rightarrow> string \<Rightarrow> (string \<times> val) list \<Rightarrow> store \<Rightarrow> (error + val) \<times> store" where
  "store_insert table pk row s =
     (let k = (case map_of row pk of
                 None \<Rightarrow> IntV (next_id s)
               | Some v \<Rightarrow> if v = NoneV then IntV (next_id s) else v)
      in if list_ex (has_key table pk k) (table_rows s)
         then (Inl (IntegrityError pk), s)
         else (Inr k, \<lparr>table_rows = table_rows s @ [(table, dict_set row pk k)],
                       next_id = next_id s + 1\<rparr>))"

definition set_columns :: "(string \<times> val) list \<Rightarrow> (string \<times> val) list \<Rightarrow> (string \<times> val) list" where
  "set_columns row r = foldr (\<lambda>(c, v) r'. dict_set r' c v) row r"

definition store_update ::
  "string \<Rightarrow> string \<Rightarrow> val \<Rightarrow> (string \<times> val) list \<Rightarrow> store \<Rightarrow> (error + nat) \<times> store" where
  "store_update table pk k row s =
     (Inr (length (filter (has_key table pk k) (table_rows s))),
      s\<lparr>table_rows :=
          map (\<lambda>tr. if has_key table pk k tr then (fst tr, set_columns row (snd tr)) else tr)
            (table_rows s)\<rparr>)"

definition store_select ::
  "string \<Rightarrow> string \<Rightarrow> val \<Rightarrow> store \<Rightarrow> (error + (string \<times> val) list list) \<times> store" where
  "store_select table pk k s =
     (Inr (map snd (filter (has_key table pk k) (table_rows s))), s)"

definition store_database :: "store database" where
  "store_database =
     \<lparr>insert_row = store_insert, update_rows = store_update, select_rows = store_select\<rparr>"

definition empty_store :: store where
  "empty_store = \<lparr>table_rows = [], next_id = 1\<rparr>"

text \<open>A database that is down: every statement raises.\<close>

definition down_database :: "unit database" where
  "down_database =
     \<lparr>insert_row = (\<lambda>t pk row db. (Inl (OperationalError ''connection refused''), db)),
      update_rows = (\<lambda>t pk k row db. (Inl (OperationalError ''connection refused''), db)),
      select_rows = (\<lambda>t pk k db. (Inl (OperationalError ''connection refused''), db))\<rparr>"

text \<open>
  A database keeps its rows when what it stored can be read: after an insert that
  returned a key, selecting that key gives the inserted row, with its key, and nothing
  else, and the key is the one the row brought when it brought one; after an update that
  did not touch the key column, selecting the key gives as many rows as were updated,
  and each holds the values the update set.
\<close>

definition keeps_rows :: "'db database \<Rightarrow> bool" where
  "keeps_rows ops =
     ((\<forall>table pk row db k db'.
         insert_row ops table pk row db = (Inr k, db') \<longrightarrow>
           k \<noteq> NoneV
           \<and> (\<forall>v. map_of row pk = Some v \<and> v \<noteq> NoneV \<longrightarrow> k = v)
           \<and> select_rows ops table pk k db' = (Inr [dict_set row pk k], db'))
      \<and> (\<forall>table pk k row db n db'.
           update_rows ops table pk k row db = (Inr n, db') \<and> map_of row pk = None \<longrightarrow>
             (\<exists>rs. select_rows ops table pk k db' = (Inr rs, db') \<and> length rs = n
                \<and> (\<forall>r \<in> set rs. \<forall>c v. map_of row c = Some v \<longrightarrow> map_of r c = Some v))))"

subsection \<open>Declared types, and creating then loading\<close>

definition declared_type :: "model_meta \<Rightarrow> string \<Rightarrow> field_type option" where
  "declared_type meta n =
     map_option field_type (find (\<lambda>f. field_name f = n) (sorted_fields meta))"

text \<open>Creating a record, loading it by the key it got, and reading one field.\<close>

definition create_then_get ::
  "binding \<Rightarrow> model_meta \<Rightarrow> 'db database \<Rightarrow> (string \<Rightarrow> datetime) \<Rightarrow> datetime \<Rightarrow>
     (string \<times> val) list \<Rightarrow> 'db \<Rightarrow> string \<Rightarrow> error + val" where
  "create_then_get g meta ops clock now kwargs db n =
     (case create g meta ops clock now kwargs db of
        (Inl e, db1) \<Rightarrow> Inl e
      | (Inr inst, db1) \<Rightarrow>
          (case get g meta ops (getattr inst (primary_key meta)) db1 of
             (Inl e, db2) \<Rightarrow> Inl e
           | (Inr reloaded, db2) \<Rightarrow> Inr (getattr reloaded n)))"

subsection \<open>Sample records\<close>

text \<open>
  A clock that reads the same time for every default. An event as \<^verbatim>\<open>get\<close> returns it,
  last written when the clock read 100, and a database that holds its row and the batch
  it belongs to. The values given for a new event of that batch, alone, with a key and a
  value for \<^verbatim>\<open>updated\<close>, and with \<^verbatim>\<open>None\<close> for the key. The values given for a
  client.
\<close>

definition at_time :: "datetime \<Rightarrow> string \<Rightarrow> datetime" where
  "at_time t n = t"

definition loaded_event :: model_instance where
  "loaded_event =
     \<lparr>data = [(''id'', IntV 3), (''event_batch_id'', IntV 1),
              (''quantity'', DecimalV (5 / 2)), (''event_timestamp'', DateTimeV 80),
              (''inserted'', DateTimeV 90), (''updated'', DateTimeV 100)],
      dirty = {}\<rparr>"

definition event_store :: store where
  "event_store =
     \<lparr>table_rows =
        [(''batches'',
          [(''id'', IntV 1), (''client_config_id'', IntV 1), (''status'', TextV ''NEW''),
           (''inserted'', DateTimeV 70), (''updated'', DateTimeV 70)]),
         (''events'',
          [(''id'', IntV 3), (''event_batch_id'', IntV 1),
           (''quantity'', DecimalV (5 / 2)), (''event_timestamp'', DateTimeV 80),
           (''inserted'', DateTimeV 90), (''updated'', DateTimeV 100)])],
      next_id = 4\<rparr>"

definition event_kwargs :: "(string \<times> val) list" where
  "event_kwargs =
     [(''event_batch_id'', IntV 1), (''quantity'', DecimalV (1234565 / 100000)),
      (''event_timestamp'', DateTimeV 95)]"

definition keyed_event_kwargs :: "(string \<times> val) list" where
  "keyed_event_kwargs = (''id'', IntV 9) # (''updated'', DateTimeV 7) # event_kwargs"

definition unkeyed_event_kwargs :: "(string \<times> val) list" where
  "unkeyed_event_kwargs = (''id'', NoneV) # (''updated'', DateTimeV 7) # event_kwargs"

definition acme_kwargs :: "(string \<times> val) list" where
  "acme_kwargs = [(''title'', TextV ''Acme Bank''), (''type'', TextV ''FINANCIAL_INSTITUTION'')]"

section \<open>Properties of the enum classes\<close>

lemma member_map_snoc:
  "member_map (cls @ [d]) = add_member (member_map cls) d"
  by (simp add: member_map_def)

lemma find_map_member:
  "find (\<lambda>(k, m). member_value m = v) (map (\<lambda>(n, c). (n, Member (f n c) c)) xs) =
     map_option (\<lambda>(n, c). (n, Member (f n c) c)) (find (\<lambda>(k, c). c = v) xs)"
  by (induction xs) auto

lemma find_app:
  "find P (xs @ ys) = (case find P xs of None \<Rightarrow> find P ys | Some x \<Rightarrow> Some x)"
  by (induction xs) auto

lemma first_name_snoc_old:
  "(k, c) \<in> set xs \<Longrightarrow> first_name (xs @ [d]) c k' = first_name xs c k''"
proof -
  assume "(k, c) \<in> set xs"
  then obtain y where "find (\<lambda>(k, c'). c' = c) xs = Some y"
    by (cases "find (\<lambda>(k, c'). c' = c) xs") (auto simp: find_None_iff)
  then show ?thesis
    by (simp add: first_name_def find_app)
qed

lemma member_map_eq:
  "member_map cls = map (\<lambda>(n, v). (n, Member (first_name cls v n) v)) cls"
proof (induction cls rule: rev_induct)
  case Nil
  show ?case by (simp add: member_map_def)
next
  case (snoc d xs)
  obtain n v where d: "d = (n, v)" by (cases d)
  let ?old = "map (\<lambda>(k, c). (k, Member (first_name xs c k) c)) xs"
  have old: "map (\<lambda>(k, c). (k, Member (first_name (xs @ [d]) c k) c)) xs = ?old"
    by (rule map_cong) (auto dest: first_name_snoc_old)
  have step: "member_map (xs @ [d]) = add_member ?old (n, v)"
    by (simp only: member_map_snoc snoc.IH d)
  have found: "find (\<lambda>(k, m). member_value m = v) ?old =
      map_option (\<lambda>(k, c). (k, Member (first_name xs c k) c)) (find (\<lambda>(k, c). c = v) xs)"
    by (rule find_map_member)
  have last: "add_member ?old (n, v) = ?old @ [(n, Member (first_name (xs @ [d]) v n) v)]"
  proof (cases "find (\<lambda>(k, c). c = v) xs")
    case None
    then have "first_name (xs @ [d]) v n = n"
      by (simp add: first_name_def find_app d)
    with None found show ?thesis by simp
  next
    case (Some y)
    obtain k c where y: "y = (k, c)" by (cases y)
    from Some have cv: "c = v" and kin: "(k, v) \<in> set xs"
      by (auto simp: y find_Some_iff in_set_conv_nth)
    have "first_name (xs @ [d]) v n = first_name xs v k"
      using kin by (rule first_name_snoc_old)
    with Some found show ?thesis by (simp add: y cv)
  qed
  have "map (\<lambda>(k, c). (k, Member (first_name (xs @ [d]) c k) c)) (xs @ [d])
        = ?old @ [(n, Member (first_name (xs @ [d]) v n) v)]"
    using old by (simp add: d)
  with step last show ?case by simp
qed

lemma map_of_member_map_None:
  "n \<notin> fst ` set cls \<Longrightarrow> map_of (member_map cls) n = None"
  by (simp add: member_map_eq map_of_eq_None_iff image_image case_prod_unfold)

lemma map_of_member_map_Some:
  assumes "distinct (map fst cls)" and "(n, v) \<in> set cls"
  shows "map_of (member_map cls) n = Some (Member (first_name cls v n) v)"
proof -
  have "map fst (member_map cls) = map fst cls"
    by (simp add: member_map_eq case_prod_unfold comp_def)
  with assms(1) have "distinct (map fst (member_map cls))" by simp
  moreover from assms(2) have "(n, Member (first_name cls v n) v) \<in> set (member_map cls)"
    by (force simp: member_map_eq)
  ultimately show ?thesis by simp
qed

lemma enum_classes_distinct:
  "distinct (map fst ClientTypeField)" "distinct (map fst StatusField)"
  "distinct (map fst EventFrequencyField)" "distinct (map fst BehaviorTypeField)"
  "distinct (map fst AccountTypeField)" "distinct (map fst DestinationSystemField)"
  "distinct (map fst BatchStatusField)"
  by (simp_all add: ClientTypeField_def StatusField_def EventFrequencyField_def
      BehaviorTypeField_def AccountTypeField_def DestinationSystemField_def
      BatchStatusField_def)

lemma first_name_declared:
  "(n, v) \<in> set cls \<Longrightarrow> (first_name cls v n, v) \<in> set cls"
proof -
  assume "(n, v) \<in> set cls"
  then obtain y where y: "find (\<lambda>(k, c). c = v) cls = Some y"
    by (cases "find (\<lambda>(k, c). c = v) cls") (auto simp: find_None_iff)
  obtain k c where kc: "y = (k, c)" by (cases y)
  from y have "c = v" and "(k, c) \<in> set cls"
    by (auto simp: kc find_Some_iff in_set_conv_nth)
  moreover from y have "first_name cls v n = k"
    by (simp add: first_name_def kc)
  ultimately show ?thesis by simp
qed

lemma first_name_unshared:
  "(n, v) \<in> set cls \<Longrightarrow> \<forall>k. (k, v) \<in> set cls \<longrightarrow> k = n \<Longrightarrow> first_name cls v n = n"
  using first_name_declared by blast

lemma coerce_unbound:
  "coerce_to_unicode model_py v = Inl (NameError ''coerce_to_unicode'')"
  by (simp add: coerce_to_unicode_def model_py_def)

lemma python_value_with_import:
  assumes "distinct (map fst cls)" and "(n, c) \<in> set cls" and "f (TextV n) = n"
  shows "python_value (Some f) cls (TextV n) = Inr (MemberV (Member (first_name cls c n) c))"
  using assms(3) map_of_member_map_Some [OF assms(1,2)]
  by (simp add: python_value_def coerce_to_unicode_def getitem_def)

section \<open>Properties of instances and of saving\<close>

lemma map_of_dict_set:
  "map_of (dict_set kvs k v) k' = (if k' = k then Some v else map_of kvs k')"
  by (induction kvs) auto

lemma map_of_prune_fields:
  "map_of (prune_fields kvs S) k = (if k \<in> S then map_of kvs k else None)"
  by (induction kvs) (auto simp: prune_fields_def)

lemma map_of_dict_pop:
  "map_of (dict_pop kvs k) k' = (if k' = k then None else map_of kvs k')"
  by (induction kvs) (auto simp: dict_pop_def)

lemma map_of_set_columns:
  "map_of (set_columns row r) c = (case map_of row c of Some v \<Rightarrow> Some v | None \<Rightarrow> map_of r c)"
  by (induction row) (auto simp: set_columns_def map_of_dict_set)

lemma filter_map_keep:
  "(\<And>x. P (F x) = P x) \<Longrightarrow> filter P (map F xs) = map F (filter P xs)"
  by (induction xs) auto

lemma getattr_setattr_same:
  "n \<in> set (field_names meta) \<Longrightarrow> getattr (setattr meta self n v) n = v"
  by (simp add: getattr_def setattr_def map_of_dict_set)

lemma getattr_setattr_other:
  "n' \<noteq> n \<Longrightarrow> getattr (setattr meta self n v) n' = getattr self n'"
  by (simp add: getattr_def setattr_def map_of_dict_set)

lemma getattr_dirty_update [simp]:
  "getattr (self\<lparr>dirty := d\<rparr>) n = getattr self n"
  by (simp add: getattr_def)

lemma Model_save_getattr:
  assumes "Model_save g meta ops force_insert only self db = (r, self', db')"
    and "n \<noteq> primary_key meta"
  shows "getattr self' n = getattr self n"
  using assms
  by (auto simp: Model_save_def Let_def getattr_setattr_other
      split: if_splits sum.splits prod.splits)

lemma entity_field_names:
  "field_names (entity table fs) = ''id'' # map field_name fs @ [''inserted'', ''updated'']"
  by (simp add: entity_def field_names_def fld_def with_default_def)

lemma entity_primary_key: "primary_key (entity table fs) = ''id''"
  by (simp add: entity_def)

lemma entities_are_entity:
  "meta \<in> set entities \<Longrightarrow> \<exists>table fs. meta = entity table fs"
  by (auto simp: entities_def Client_def EventType_def ClientConfig_def Destination_def
      DestinationConfig_def EventBatch_def EventBatchDelivery_def Event_def
      EventBatchDeliveryErrorEvent_def)

lemma entities_updated:
  assumes "meta \<in> set entities"
  shows "''updated'' \<in> set (field_names meta)" and "primary_key meta = ''id''"
    and "''id'' \<in> set (field_names meta)" and "only_save_dirty meta"
  using entities_are_entity [OF assms]
  by (auto simp: entity_field_names entity_primary_key) (auto simp: entity_def)

lemma save_stamps_updated:
  assumes "''updated'' \<in> set (field_names meta)" and "primary_key meta \<noteq> ''updated''"
    and "save g meta ops now force_insert only self db = (r, self', db')"
  shows "getattr self' ''updated'' = DateTimeV now"
proof -
  from assms(3) have "getattr self' ''updated''
      = getattr (setattr meta self ''updated'' (DateTimeV now)) ''updated''"
    unfolding save_def using assms(2) by (intro Model_save_getattr) auto
  with assms(1) show ?thesis by (simp add: getattr_setattr_same)
qed

lemma Client_is_entity: "Client \<in> set entities"
  by (simp add: entities_def)

lemma Event_is_entity: "Event \<in> set entities"
  by (simp add: entities_def)

lemma loaded_event_is_loaded:
  "get model_py Event store_database (IntV 3) event_store = (Inr loaded_event, event_store)"
  by code_simp

lemma loaded_event_updated: "getattr loaded_event ''updated'' = DateTimeV 100"
  by code_simp

lemma create_client_raises:
  "create model_py Client store_database (at_time 100) 105 acme_kwargs empty_store
     = (Inl (NameError ''coerce_to_unicode''), empty_store)"
  by code_simp

section \<open>Properties of creating, converting and loading\<close>

lemma getattr_foldl_setattr:
  "n \<notin> fst ` set kwargs \<Longrightarrow>
     getattr (foldl (\<lambda>self (k, v). setattr meta self k v) inst kwargs) n = getattr inst n"
proof (induction kwargs arbitrary: inst)
  case Nil
  show ?case by simp
next
  case (Cons kv kwargs)
  obtain k v where kv: "kv = (k, v)" by (cases kv)
  from Cons.prems have "n \<noteq> k" and "n \<notin> fst ` set kwargs"
    by (auto simp: kv)
  with Cons.IH [of "setattr meta inst k v"] show ?case
    by (simp add: kv getattr_setattr_other)
qed

lemma init_keeps_default:
  "n \<notin> fst ` set kwargs \<Longrightarrow>
     getattr (init meta clock kwargs) n
       = (case map_of (get_default_dict (sorted_fields meta) clock) n of
            None \<Rightarrow> NoneV | Some v \<Rightarrow> v)"
  by (simp add: init_def getattr_foldl_setattr) (simp add: getattr_def)

lemma entities_default_timestamps:
  assumes "meta \<in> set entities"
  shows "map_of (get_default_dict (sorted_fields meta) clock) ''inserted''
           = Some (DateTimeV (clock ''inserted''))"
    and "map_of (get_default_dict (sorted_fields meta) clock) ''updated''
           = Some (DateTimeV (clock ''updated''))"
  using assms
  by (auto simp: entities_def Client_def EventType_def ClientConfig_def Destination_def
      DestinationConfig_def EventBatch_def EventBatchDelivery_def Event_def
      EventBatchDeliveryErrorEvent_def entity_def fld_def with_default_def nullable_def
      uniq_def)

lemma status_default:
  assumes "meta = Client \<or> meta = ClientConfig"
  shows "map_of (get_default_dict (sorted_fields meta) clock) ''status''
           = Some (TextV ''PENDING'')"
  using assms
  by (auto simp: Client_def ClientConfig_def entity_def fld_def with_default_def nullable_def
      uniq_def)

lemma save_getattr_other:
  assumes "save g meta ops now force_insert only self db = (r, self', db')"
    and "n \<noteq> primary_key meta" and "n \<noteq> ''updated''"
  shows "getattr self' n = getattr self n"
proof -
  from assms(1) have "getattr self' n = getattr (setattr meta self ''updated'' (DateTimeV now)) n"
    unfolding save_def using assms(2) by (rule Model_save_getattr)
  with assms(3) show ?thesis by (simp add: getattr_setattr_other)
qed

lemma create_result:
  assumes "create g meta ops clock now kwargs db = (Inr inst, db')"
  shows "\<exists>n inst0. save g meta ops now True [] (init meta clock kwargs) db = (Inr n, inst0, db')
           \<and> inst = inst0\<lparr>dirty := {}\<rparr>"
  using assms by (auto simp: create_def split: prod.splits sum.splits)

lemma round_half_even_near: "\<bar>of_int (round_half_even x) - x\<bar> \<le> 1 / 2"
proof -
  have "of_int \<lfloor>x\<rfloor> \<le> x" and "x < of_int \<lfloor>x\<rfloor> + 1"
    by linarith+
  then show ?thesis
    by (auto simp: round_half_even_def Let_def)
qed

lemma round_to_four_near:
  "\<bar>of_int (round_half_even (x * 10000)) / 10000 - x\<bar> \<le> 1 / 20000"
proof -
  have "\<bar>of_int (round_half_even (x * 10000)) - x * 10000\<bar> \<le> 1 / 2"
    by (rule round_half_even_near)
  then show ?thesis by (simp add: field_simps abs_if split: if_splits)
qed

lemma quantize_result:
  assumes "quantize places x = Inr y"
  shows "y = of_int (round_half_even (x * 10 ^ places)) / 10 ^ places"
  using assms by (auto simp: quantize_def Let_def split: if_splits)

lemma quantize_succeeds:
  assumes "\<bar>x\<bar> * 10 ^ places < 10 ^ 27"
  shows "\<exists>y. quantize places x = Inr y"
proof -
  let ?n = "round_half_even (x * 10 ^ places)"
  have "\<bar>of_int ?n - x * 10 ^ places\<bar> \<le> 1 / 2"
    by (rule round_half_even_near)
  then have "\<bar>(of_int ?n :: rat)\<bar> \<le> \<bar>x * 10 ^ places\<bar> + 1 / 2"
    by linarith
  also have "\<dots> = \<bar>x\<bar> * 10 ^ places + 1 / 2"
    by (simp add: abs_mult)
  also have "\<dots> < 10 ^ 28"
    using assms by simp
  finally have "(of_int \<bar>?n\<bar> :: rat) < of_int (10 ^ 28)"
    by simp
  then have "\<bar>?n\<bar> < 10 ^ 28"
    by (simp only: of_int_less_iff)
  then show ?thesis
    by (simp add: quantize_def Let_def)
qed

lemma decimal_db_value_rounded:
  assumes "decimal_db_value places True x = Inr w"
  shows "w = DecimalV (of_int (round_half_even (x * 10 ^ places)) / 10 ^ places)"
proof (cases "x = 0")
  case True
  with assms show ?thesis
    by (simp add: decimal_db_value_def round_half_even_def)
next
  case False
  with assms obtain y where "quantize places x = Inr y" and "w = DecimalV y"
    by (auto simp: decimal_db_value_def split: sum.splits)
  then show ?thesis
    by (simp add: quantize_result)
qed

lemma convert_dict_lookup:
  assumes "convert_dict conv fs kvs = Inr ws" and "map_of kvs k = Some v"
  shows "\<exists>f w. find (\<lambda>f. field_name f = k) fs = Some f \<and> conv (field_type f) v = Inr w
           \<and> map_of ws k = Some w"
  using assms
proof (induction kvs arbitrary: ws)
  case Nil
  then show ?case by simp
next
  case (Cons kv kvs)
  obtain k' v' where kv: "kv = (k', v')" by (cases kv)
  from Cons.prems(1) obtain f' w' ws'
    where f': "find (\<lambda>f. field_name f = k') fs = Some f'"
      and w': "conv (field_type f') v' = Inr w'"
      and ws': "convert_dict conv fs kvs = Inr ws'"
      and ws: "ws = (k', w') # ws'"
    by (auto simp: kv split: option.splits sum.splits)
  show ?case
  proof (cases "k' = k")
    case True
    with Cons.prems(2) have "v' = v" by (simp add: kv)
    with True f' w' ws show ?thesis by simp
  next
    case False
    with Cons.prems(2) have "map_of kvs k = Some v" by (simp add: kv)
    from Cons.IH [OF ws' this] False ws show ?thesis by simp
  qed
qed

lemma convert_dict_lookup_None:
  assumes "convert_dict conv fs kvs = Inr ws" and "map_of kvs k = None"
  shows "map_of ws k = None"
  using assms
proof (induction kvs arbitrary: ws)
  case Nil
  then show ?case by simp
next
  case (Cons kv kvs)
  obtain k' v' where kv: "kv = (k', v')" by (cases kv)
  from Cons.prems(1) obtain w' ws'
    where ws': "convert_dict conv fs kvs = Inr ws'" and ws: "ws = (k', w') # ws'"
    by (auto simp: kv split: option.splits sum.splits)
  from Cons.prems(2) have "k' \<noteq> k" and "map_of kvs k = None"
    by (auto simp: kv split: if_splits)
  with Cons.IH [OF ws'] ws show ?case by simp
qed

lemma fixed_point_declarations:
  "declared_type ClientConfig ''balance_floor'' = Some (DecimalField 15 4 True)"
  "declared_type Event ''quantity'' = Some (DecimalField 12 4 True)"
  by (simp_all add: declared_type_def ClientConfig_def Event_def entity_def fld_def
      with_default_def nullable_def)

lemma store_keeps_rows: "keeps_rows store_database"
proof -
  have ins: "k \<noteq> NoneV \<and> (\<forall>v. map_of row pk = Some v \<and> v \<noteq> NoneV \<longrightarrow> k = v)
      \<and> store_select table pk k s' = (Inr [dict_set row pk k], s')"
    if "store_insert table pk row s = (Inr k, s')" for table pk row s k s'
  proof -
    let ?k = "case map_of row pk of None \<Rightarrow> IntV (next_id s)
              | Some v \<Rightarrow> if v = NoneV then IntV (next_id s) else v"
    from that have k: "k = ?k" and free: "\<not> list_ex (has_key table pk k) (table_rows s)"
      and s': "s' = \<lparr>table_rows = table_rows s @ [(table, dict_set row pk k)],
                      next_id = next_id s + 1\<rparr>"
      by (auto simp: store_insert_def Let_def split: if_splits)
    from k have "k \<noteq> NoneV"
      by (auto split: option.splits)
    moreover from k have "\<forall>v. map_of row pk = Some v \<and> v \<noteq> NoneV \<longrightarrow> k = v"
      by simp
    moreover from free have "filter (has_key table pk k) (table_rows s) = []"
      by (simp add: list_ex_iff filter_empty_conv)
    then have "store_select table pk k s' = (Inr [dict_set row pk k], s')"
      by (simp add: store_select_def s' has_key_def map_of_dict_set)
    ultimately show ?thesis by simp
  qed
  have upd: "\<exists>rs. store_select table pk k s' = (Inr rs, s') \<and> length rs = n
      \<and> (\<forall>r \<in> set rs. \<forall>c v. map_of row c = Some v \<longrightarrow> map_of r c = Some v)"
    if u: "store_update table pk k row s = (Inr n, s')" and nk: "map_of row pk = None"
    for table pk k row s n s'
  proof -
    let ?P = "has_key table pk k"
    let ?F = "\<lambda>tr. if ?P tr then (fst tr, set_columns row (snd tr)) else tr"
    from u have n: "n = length (filter ?P (table_rows s))"
      and s': "s' = s\<lparr>table_rows := map ?F (table_rows s)\<rparr>"
      by (auto simp: store_update_def)
    have keep: "?P (?F tr) = ?P tr" for tr
      using nk by (simp add: has_key_def map_of_set_columns)
    have "filter ?P (map ?F (table_rows s)) = map ?F (filter ?P (table_rows s))"
      using keep by (rule filter_map_keep)
    then have sel: "store_select table pk k s'
        = (Inr (map snd (map ?F (filter ?P (table_rows s)))), s')"
      by (simp add: store_select_def s')
    have "map_of r c = Some v"
      if "r \<in> set (map snd (map ?F (filter ?P (table_rows s))))" and "map_of row c = Some v"
      for r c v
    proof -
      from that(1) obtain tr where "?P tr" and "r = snd (?F tr)" by auto
      then have "r = set_columns row (snd tr)" by simp
      with that(2) show ?thesis by (simp add: map_of_set_columns)
    qed
    with sel n show ?thesis by auto
  qed
  from ins upd show ?thesis
    unfolding keeps_rows_def store_database_def by (simp only: database.simps) blast
qed

lemma find_field:
  "distinct (map field_name fs) \<Longrightarrow> f \<in> set fs \<Longrightarrow>
     find (\<lambda>g. field_name g = field_name f) fs = Some f"
  by (induction fs) (auto simp: image_iff)

lemma entities_distinct_fields:
  "meta \<in> set entities \<Longrightarrow> distinct (field_names meta)"
  by (auto simp: entities_def Client_def EventType_def ClientConfig_def Destination_def
      DestinationConfig_def EventBatch_def EventBatchDelivery_def Event_def
      EventBatchDeliveryErrorEvent_def entity_def fld_def with_default_def nullable_def
      uniq_def field_names_def)

lemma entities_updated_type:
  assumes "meta \<in> set entities" and "f \<in> set (sorted_fields meta)"
    and "field_name f = ''updated''"
  shows "field_type f = DateTimeField"
  using assms
  by (auto simp: entities_def Client_def EventType_def ClientConfig_def Destination_def
      DestinationConfig_def EventBatch_def EventBatchDelivery_def Event_def
      EventBatchDeliveryErrorEvent_def entity_def fld_def with_default_def nullable_def
      uniq_def)

lemma entities_id_type:
  assumes "meta \<in> set entities" and "f \<in> set (sorted_fields meta)"
    and "field_name f = ''id''"
  shows "field_type f = IntegerField"
  using assms
  by (auto simp: entities_def Client_def EventType_def ClientConfig_def Destination_def
      DestinationConfig_def EventBatch_def EventBatchDelivery_def Event_def
      EventBatchDeliveryErrorEvent_def entity_def fld_def with_default_def nullable_def
      uniq_def)

lemma map_of_foldl_setattr_other:
  "n \<notin> fst ` set kwargs \<Longrightarrow>
     map_of (data (foldl (\<lambda>self (k, v). setattr meta self k v) inst kwargs)) n
       = map_of (data inst) n"
proof (induction kwargs arbitrary: inst)
  case Nil
  show ?case by simp
next
  case (Cons kv kwargs)
  obtain k v where kv: "kv = (k, v)" by (cases kv)
  from Cons.prems have "n \<noteq> k" and "n \<notin> fst ` set kwargs"
    by (auto simp: kv)
  with Cons.IH [of "setattr meta inst k v"] show ?case
    by (simp add: kv setattr_def map_of_dict_set)
qed

lemma map_of_foldl_setattr_given:
  assumes "distinct (map fst kwargs)" and "(n, v) \<in> set kwargs"
    and "n \<in> set (field_names meta)"
  shows "map_of (data (foldl (\<lambda>self (k, v). setattr meta self k v) inst kwargs)) n = Some v"
  using assms(1,2)
proof (induction kwargs arbitrary: inst)
  case Nil
  then show ?case by simp
next
  case (Cons kv kwargs)
  obtain k w where kv: "kv = (k, w)" by (cases kv)
  show ?case
  proof (cases "(n, v) = (k, w)")
    case True
    with Cons.prems(1) have "n \<notin> fst ` set kwargs"
      by (auto simp: kv)
    from map_of_foldl_setattr_other [OF this] True assms(3) show ?thesis
      by (simp add: kv setattr_def map_of_dict_set)
  next
    case False
    with Cons.prems have "(n, v) \<in> set kwargs" and "distinct (map fst kwargs)"
      by (auto simp: kv)
    with Cons.IH show ?thesis by (simp add: kv)
  qed
qed

lemma init_given:
  assumes "distinct (map fst kwargs)" and "(n, v) \<in> set kwargs"
    and "n \<in> set (field_names meta)"
  shows "map_of (data (init meta clock kwargs)) n = Some v"
  unfolding init_def using assms by (rule map_of_foldl_setattr_given)

lemma db_value_plain:
  assumes "field_db_value g t v = Inr w"
    and "t \<in> {IntegerField, CharField, TextField, DateTimeField, DateField}
           \<union> range ForeignKeyField"
  shows "w = v"
  using assms by (cases t; cases v) auto

lemma python_value_plain:
  assumes "field_python_value g t w = Inr u"
    and "t \<in> {IntegerField, CharField, TextField, DateTimeField, DateField}
           \<union> range ForeignKeyField"
  shows "u = w"
  using assms by (cases t; cases w) auto

lemma decimal_written_then_read:
  assumes "field_db_value g (DecimalField digits places True) (DecimalV x) = Inr w"
    and "field_python_value g (DecimalField digits places True) w = Inr u"
  shows "u = DecimalV (of_int (round_half_even (x * 10 ^ places)) / 10 ^ places)"
proof -
  from assms(1) have "decimal_db_value places True x = Inr w" by simp
  from decimal_db_value_rounded [OF this] assms(2) show ?thesis by simp
qed

lemma sum_is_Inr: "\<not> isl x \<Longrightarrow> x = Inr (projr x)"
  by (cases x) simp_all

lemma Model_save_stores:
  assumes kr: "keeps_rows ops"
    and s: "Model_save g meta ops force_insert only self db = (Inr m, self', db')"
    and pkf: "primary_key meta \<in> set (field_names meta)"
    and n: "n \<noteq> primary_key meta"
    and v: "map_of (data self) n = Some v"
    and w: "if only \<noteq> [] then n \<in> set only
            else force_insert \<or> \<not> only_save_dirty meta \<or> n \<in> dirty self"
  shows "\<exists>f u rs. find (\<lambda>f. field_name f = n) (sorted_fields meta) = Some f
           \<and> field_db_value g (field_type f) v = Inr u
           \<and> select_rows ops (db_table meta) (primary_key meta)
                 (getattr self' (primary_key meta)) db' = (Inr rs, db')
           \<and> length rs = m
           \<and> (\<forall>r \<in> set rs. map_of r n = Some u)"
proof -
  let ?pk = "primary_key meta"
  let ?use = "only = [] \<and> only_save_dirty meta \<and> \<not> force_insert"
  define fd where "fd =
     (if only \<noteq> [] then prune_fields (data self) (set only)
      else if ?use then prune_fields (data self) (dirty self)
      else data self)"
  from v w have fdn: "map_of fd n = Some v"
    by (auto simp: fd_def map_of_prune_fields split: if_splits)
  then have ne: "fd \<noteq> []" by auto
  show ?thesis
  proof (cases "getattr self ?pk \<noteq> NoneV \<and> \<not> force_insert")
    case True
    with s ne obtain row
      where conv: "convert_dict (field_db_value g) (sorted_fields meta) (dict_pop fd ?pk) = Inr row"
        and upd: "update_rows ops (db_table meta) ?pk (getattr self ?pk) row db = (Inr m, db')"
        and self': "self' = self\<lparr>dirty := {}\<rparr>"
      unfolding Model_save_def Let_def fd_def [symmetric]
      by (auto split: if_splits sum.splits prod.splits)
    from fdn n have "map_of (dict_pop fd ?pk) n = Some v"
      by (simp add: map_of_dict_pop)
    from convert_dict_lookup [OF conv this] obtain f u
      where f: "find (\<lambda>f. field_name f = n) (sorted_fields meta) = Some f"
        and u: "field_db_value g (field_type f) v = Inr u"
        and ru: "map_of row n = Some u"
      by blast
    have "map_of (dict_pop fd ?pk) ?pk = None"
      by (simp add: map_of_dict_pop)
    from convert_dict_lookup_None [OF conv this] have nopk: "map_of row ?pk = None" .
    from kr upd nopk obtain rs
      where sel: "select_rows ops (db_table meta) ?pk (getattr self ?pk) db' = (Inr rs, db')"
        and len: "length rs = m"
        and all: "\<forall>r \<in> set rs. \<forall>c v. map_of row c = Some v \<longrightarrow> map_of r c = Some v"
      unfolding keeps_rows_def by blast
    from all ru have "\<forall>r \<in> set rs. map_of r n = Some u" by blast
    with f u sel len self' show ?thesis by auto
  next
    case False
    with s ne obtain row k
      where conv: "convert_dict (field_db_value g) (sorted_fields meta) fd = Inr row"
        and ins: "insert_row ops (db_table meta) ?pk row db = (Inr k, db')"
        and m: "m = 1"
        and self': "self' = (setattr meta self ?pk
                     (if k \<noteq> NoneV then k else getattr self ?pk))\<lparr>dirty := {}\<rparr>"
      unfolding Model_save_def Let_def fd_def [symmetric]
      by (auto split: if_splits sum.splits prod.splits)
    from convert_dict_lookup [OF conv fdn] obtain f u
      where f: "find (\<lambda>f. field_name f = n) (sorted_fields meta) = Some f"
        and u: "field_db_value g (field_type f) v = Inr u"
        and ru: "map_of row n = Some u"
      by blast
    from kr ins have k: "k \<noteq> NoneV"
      and sel: "select_rows ops (db_table meta) ?pk k db' = (Inr [dict_set row ?pk k], db')"
      unfolding keeps_rows_def by blast+
    from self' k pkf have "getattr self' ?pk = k"
      by (simp add: getattr_setattr_same)
    moreover from ru n have "map_of (dict_set row ?pk k) n = Some u"
      by (simp add: map_of_dict_set)
    ultimately show ?thesis using f u sel m by auto
  qed
qed

lemma create_inserts:
  assumes "create g meta ops clock now kwargs db = (Inr inst, db1)"
  shows "\<exists>row k. convert_dict (field_db_value g) (sorted_fields meta)
                   (data (setattr meta (init meta clock kwargs) ''updated'' (DateTimeV now)))
                 = Inr row
           \<and> insert_row ops (db_table meta) (primary_key meta) row db = (Inr k, db1)
           \<and> (k \<noteq> NoneV \<longrightarrow> primary_key meta \<in> set (field_names meta) \<longrightarrow>
                getattr inst (primary_key meta) = k)"
proof -
  let ?s = "setattr meta (init meta clock kwargs) ''updated'' (DateTimeV now)"
  from create_result [OF assms] obtain n inst0
    where s: "Model_save g meta ops True [] ?s db = (Inr n, inst0, db1)"
      and i: "inst = inst0\<lparr>dirty := {}\<rparr>"
    by (auto simp: save_def)
  from s obtain row k
    where row: "convert_dict (field_db_value g) (sorted_fields meta) (data ?s) = Inr row"
      and ins: "insert_row ops (db_table meta) (primary_key meta) row db = (Inr k, db1)"
      and i0: "inst0 = (setattr meta ?s (primary_key meta)
                 (if k \<noteq> NoneV then k else getattr ?s (primary_key meta)))\<lparr>dirty := {}\<rparr>"
    by (auto simp: Model_save_def Let_def split: sum.splits prod.splits)
  from i i0 have "k \<noteq> NoneV \<longrightarrow> primary_key meta \<in> set (field_names meta) \<longrightarrow>
      getattr inst (primary_key meta) = k"
    by (simp add: getattr_setattr_same)
  with row ins show ?thesis by blast
qed

lemma get_converts:
  assumes "get g meta ops k db1 = (Inr reloaded, db2)"
    and "select_rows ops (db_table meta) (primary_key meta) k db1 = (Inr [row], db1)"
  shows "convert_dict (field_python_value g) (sorted_fields meta) row = Inr (data reloaded)"
  using assms by (auto simp: get_def split: sum.splits)

lemma create_get_field:
  assumes ent: "meta \<in> set entities" and kr: "keeps_rows ops"
    and f: "f \<in> set (sorted_fields meta)"
    and written: "map_of (data (setattr meta (init meta clock kwargs) ''updated'' (DateTimeV now)))
                    (field_name f) = Some v"
    and c: "create g meta ops clock now kwargs db = (Inr inst, db1)"
    and gt: "get g meta ops (getattr inst ''id'') db1 = (Inr reloaded, db2)"
  shows "\<exists>w k. field_db_value g (field_type f) v = Inr w
           \<and> (w \<noteq> NoneV \<and> field_name f = ''id'' \<longrightarrow> k = w)
           \<and> field_python_value g (field_type f) (if field_name f = ''id'' then k else w)
               = Inr (getattr reloaded (field_name f))"
proof -
  note e = entities_updated [OF ent]
  let ?s = "setattr meta (init meta clock kwargs) ''updated'' (DateTimeV now)"
  from create_inserts [OF c] e(2,3) obtain row k
    where row: "convert_dict (field_db_value g) (sorted_fields meta) (data ?s) = Inr row"
      and ins: "insert_row ops (db_table meta) ''id'' row db = (Inr k, db1)"
      and pkv: "k \<noteq> NoneV \<longrightarrow> getattr inst ''id'' = k"
    by auto
  from kr ins have k: "k \<noteq> NoneV"
    and given: "\<forall>v. map_of row ''id'' = Some v \<and> v \<noteq> NoneV \<longrightarrow> k = v"
    and sel: "select_rows ops (db_table meta) ''id'' k db1 = (Inr [dict_set row ''id'' k], db1)"
    unfolding keeps_rows_def by blast+
  from pkv k have ik: "getattr inst ''id'' = k" by simp
  from gt sel have rd: "convert_dict (field_python_value g) (sorted_fields meta)
      (dict_set row ''id'' k) = Inr (data reloaded)"
    by (intro get_converts [of g meta ops k db1 reloaded db2]) (simp_all add: ik e(2))
  have ff: "find (\<lambda>g. field_name g = field_name f) (sorted_fields meta) = Some f"
    using entities_distinct_fields [OF ent] f by (intro find_field) (simp_all add: field_names_def)
  from convert_dict_lookup [OF row written] ff obtain w
    where w: "field_db_value g (field_type f) v = Inr w" and rw: "map_of row (field_name f) = Some w"
    by auto
  let ?stored = "if field_name f = ''id'' then k else w"
  from rw have "map_of (dict_set row ''id'' k) (field_name f) = Some ?stored"
    by (simp add: map_of_dict_set)
  from convert_dict_lookup [OF rd this] ff obtain u
    where u: "field_python_value g (field_type f) ?stored = Inr u"
      and ru: "map_of (data reloaded) (field_name f) = Some u"
    by auto
  from ru have "getattr reloaded (field_name f) = u"
    by (simp add: getattr_def)
  moreover from given rw have "w \<noteq> NoneV \<and> field_name f = ''id'' \<longrightarrow> k = w"
    by auto
  ultimately show ?thesis using w u by auto
qed

lemma assigned_quantity_is_stored_rounded:
  "map_of (hd (projr (fst (store_select ''events'' ''id'' (IntV 3)
      (snd (snd (save model_py Event store_database 120 False []
         (setattr Event loaded_event ''quantity'' (DecimalV (5 / 3))) event_store)))))))
     ''quantity'' = Some (DecimalV (16667 / 10000))"
  by code_simp

section \<open>Claims on the enumerated fields\<close>

text \<open>
  C2 says that every declared name, encoded by \<^verbatim>\<open>db_value\<close> and decoded by
  \<^verbatim>\<open>python_value\<close>, comes back as the same name, whatever codes the names share. The
  code does not do that. In the module as written both functions raise \<^verbatim>\<open>NameError\<close> on
  a name, shared code or not, since \<^verbatim>\<open>coerce_to_unicode\<close> is unbound. And the lookup
  \<^verbatim>\<open>cls[name]\<close> that \<^verbatim>\<open>python_value\<close> makes once the name is bound takes \<^verbatim>\<open>BUSINESS_LOAN\<close>
  to the member named \<^verbatim>\<open>LOAN\<close>.
\<close>

theorem enum_round_trip_raises:
  "db_value model_py (TextV ''BUSINESS_LOAN'') = Inl (NameError ''coerce_to_unicode'')
   \<and> python_value model_py AccountTypeField (TextV ''BUSINESS_LOAN'')
       = Inl (NameError ''coerce_to_unicode'')
   \<and> db_value model_py (TextV ''CHECKING'') = Inl (NameError ''coerce_to_unicode'')
   \<and> python_value model_py AccountTypeField (TextV ''CHECKING'')
       = Inl (NameError ''coerce_to_unicode'')
   \<and> getitem AccountTypeField ''BUSINESS_LOAN'' = Inr (Member ''LOAN'' 70)
   \<and> python_value (Some text_unchanged) AccountTypeField (TextV ''BUSINESS_LOAN'')
       = Inr (MemberV (Member ''LOAN'' 70))"
  by code_simp

text \<open>
  C3. For every enum class, decoding a text that is not one of the declared names fails:
  with \<^verbatim>\<open>NameError\<close> in the module as written, and with the lookup's \<^verbatim>\<open>KeyError\<close> under
  every binding of \<^verbatim>\<open>coerce_to_unicode\<close> that returns the text; decoding \<^verbatim>\<open>None\<close> returns
  \<^verbatim>\<open>None\<close> without an error, and encoding \<^verbatim>\<open>None\<close> returns \<^verbatim>\<open>None\<close>, under every binding.
\<close>

theorem enum_decode_undeclared:
  "(n \<notin> fst ` set cls \<longrightarrow>
       python_value model_py cls (TextV n) = Inl (NameError ''coerce_to_unicode'')
     \<and> (\<forall>f. f (TextV n) = n \<longrightarrow> python_value (Some f) cls (TextV n) = Inl (KeyError n)))
   \<and> python_value g cls NoneV = Inr NoneV
   \<and> db_value g NoneV = Inr NoneV"
  by (simp add: db_value_def python_value_def getitem_def coerce_to_unicode_def model_py_def
      map_of_member_map_None)

theorem enum_decode_undeclared_witness:
  "''ARCHIVED'' \<notin> fst ` set StatusField
   \<and> text_unchanged (TextV ''ARCHIVED'') = ''ARCHIVED''
   \<and> python_value model_py StatusField (TextV ''ARCHIVED'')
       = Inl (NameError ''coerce_to_unicode'')
   \<and> python_value (Some text_unchanged) StatusField (TextV ''ARCHIVED'')
       = Inl (KeyError ''ARCHIVED'')
   \<and> python_value model_py StatusField NoneV = Inr NoneV
   \<and> db_value model_py NoneV = Inr NoneV"
proof -
  have h: "''ARCHIVED'' \<notin> fst ` set StatusField"
    by (simp add: StatusField_def)
  have t: "text_unchanged (TextV ''ARCHIVED'') = ''ARCHIVED''"
    by (simp add: text_unchanged_def)
  note u = enum_decode_undeclared [of "''ARCHIVED''" StatusField model_py]
  from u h have 1: "python_value model_py StatusField (TextV ''ARCHIVED'')
      = Inl (NameError ''coerce_to_unicode'')"
    by blast
  from u h t have 2: "python_value (Some text_unchanged) StatusField (TextV ''ARCHIVED'')
      = Inl (KeyError ''ARCHIVED'')"
    by blast
  from u have 3: "python_value model_py StatusField NoneV = Inr NoneV"
    and 4: "db_value model_py NoneV = Inr NoneV"
    by blast+
  from h t 1 2 3 4 show ?thesis by (intro conjI)
qed

section \<open>Claims on the connection factory\<close>

text \<open>
  C8. Whatever the driver's constructor does, \<^verbatim>\<open>get_db_connection\<close> is one call of it on
  exactly the given database name, user, password, host and port: the handle it builds
  is returned, an error it raises is the error of the factory, and the driver's state is
  the state after that single call. The factory checks nothing itself and does not call
  again.
\<close>

theorem get_db_connection_is_one_driver_call:
  "get_db_connection PostgresqlDatabase db usr passwd hst prt autocommit s
     = PostgresqlDatabase db \<lparr>user = usr, password = passwd, host = hst, port = prt\<rparr> s"
  by (simp add: get_db_connection_def)

text \<open>
  C9. Two calls of \<^verbatim>\<open>get_db_connection\<close> that differ in the autocommit argument only
  return the same result: the argument is never used.
\<close>

theorem get_db_connection_ignores_autocommit:
  "get_db_connection PostgresqlDatabase db usr passwd hst prt a1 s
     = get_db_connection PostgresqlDatabase db usr passwd hst prt a2 s"
  by (simp add: get_db_connection_def)

lemma get_db_connection_sample_ok:
  "get_db_connection sample_driver ''events'' ''etl'' ''secret'' ''db1'' ''5432'' False 0
     = (Inr \<lparr>database = ''events'',
              connect_params = \<lparr>user = ''etl'', password = ''secret'', host = ''db1'',
                                port = ''5432''\<rparr>\<rparr>, 1)"
  by (simp add: get_db_connection_def sample_driver_def)

lemma get_db_connection_sample_error:
  "get_db_connection sample_driver ''events'' ''etl'' ''secret'' [] ''5432'' True 0
     = (Inl (ImproperlyConfigured ''events''), 1)"
  by (simp add: get_db_connection_def sample_driver_def)

section \<open>Claims on saving\<close>

text \<open>
  C1, as the code has it. For every entity type, \<^verbatim>\<open>save\<close> assigns the reading of the
  clock to \<^verbatim>\<open>updated\<close> and marks it dirty before it calls the library's save, and the
  record holds that reading afterwards. So the new value of \<^verbatim>\<open>updated\<close> is at least the
  value the record held before exactly when the clock's reading is at least that value.
\<close>

theorem save_sets_updated_to_clock:
  assumes "meta \<in> set entities"
    and "save g meta ops now force_insert only self db = (r, self', db')"
    and "getattr self ''updated'' = DateTimeV old"
  shows "(\<exists>stamped. save g meta ops now force_insert only self db
              = Model_save g meta ops force_insert only stamped db
            \<and> getattr stamped ''updated'' = DateTimeV now
            \<and> ''updated'' \<in> dirty stamped)
       \<and> getattr self' ''updated'' = DateTimeV now
       \<and> ((\<exists>new. getattr self' ''updated'' = DateTimeV new \<and> old \<le> new) \<longleftrightarrow> old \<le> now)"
proof -
  note e = entities_updated [OF assms(1)]
  let ?s = "setattr meta self ''updated'' (DateTimeV now)"
  have 1: "save g meta ops now force_insert only self db
      = Model_save g meta ops force_insert only ?s db"
    by (simp add: save_def)
  have 2: "getattr ?s ''updated'' = DateTimeV now"
    using e(1) by (rule getattr_setattr_same)
  have 3: "''updated'' \<in> dirty ?s"
    using e(1) by (simp add: setattr_def)
  have 4: "getattr self' ''updated'' = DateTimeV now"
    using e(1,2) assms(2)
    by (intro save_stamps_updated [of meta g ops now force_insert only self db r self' db']) auto
  from 1 2 3 4 show ?thesis by auto
qed

theorem save_sets_updated_to_clock_witness:
  "Event \<in> set entities
   \<and> getattr loaded_event ''updated'' = DateTimeV 100
   \<and> fst (save model_py Event store_database 120 False [] loaded_event event_store) = Inr 1
   \<and> getattr (fst (snd (save model_py Event store_database 120 False [] loaded_event event_store)))
        ''updated'' = DateTimeV 120
   \<and> (100 :: int) \<le> 120"
proof -
  let ?res = "save model_py Event store_database 120 False [] loaded_event event_store"
  have eq: "?res = (fst ?res, fst (snd ?res), snd (snd ?res))"
    by simp
  have ok: "fst ?res = Inr 1"
    by code_simp
  from save_sets_updated_to_clock [OF Event_is_entity eq loaded_event_updated]
  have "getattr (fst (snd ?res)) ''updated'' = DateTimeV 120"
    by (elim conjE)
  with Event_is_entity loaded_event_updated ok show ?thesis by simp
qed

text \<open>
  C1 as stated fails when the clock reads less than the value the record holds (the
  clock is the wall clock of the machine, and the value may come from another machine or
  from an assignment): the record was last written at 100, the save at 50 succeeds,
  and both the record and the row read back hold 50.
\<close>

theorem save_clock_behind_counterexample:
  "getattr loaded_event ''updated'' = DateTimeV 100
   \<and> fst (save model_py Event store_database 50 False [] loaded_event event_store) = Inr 1
   \<and> getattr (fst (snd (save model_py Event store_database 50 False [] loaded_event event_store)))
        ''updated'' = DateTimeV 50
   \<and> getattr (projr (fst (get model_py Event store_database (IntV 3)
          (snd (snd (save model_py Event store_database 50 False [] loaded_event event_store))))))
        ''updated'' = DateTimeV 50
   \<and> (50 :: int) < 100"
  by code_simp

text \<open>
  C10. For every entity type, when \<^verbatim>\<open>save\<close> ends in an error (the database raised, or a
  value could not be converted), the record in memory holds the reading of the clock in
  \<^verbatim>\<open>updated\<close>: the assignment is made before the library's save is called and is not
  undone.
\<close>

theorem save_error_keeps_new_updated:
  assumes "meta \<in> set entities"
    and "save g meta ops now force_insert only self db = (Inl e, self', db')"
  shows "getattr self' ''updated'' = DateTimeV now"
  using entities_updated(1,2) [OF assms(1)] assms(2)
  by (intro save_stamps_updated [of meta g ops now force_insert only self db "Inl e" self' db'])
    auto

theorem save_error_keeps_new_updated_witness:
  "Event \<in> set entities
   \<and> getattr loaded_event ''updated'' = DateTimeV 100
   \<and> fst (save model_py Event down_database 120 False [] loaded_event ())
       = Inl (OperationalError ''connection refused'')
   \<and> getattr (fst (snd (save model_py Event down_database 120 False [] loaded_event ())))
        ''updated'' = DateTimeV 120"
proof -
  let ?res = "save model_py Event down_database 120 False [] loaded_event ()"
  have err: "fst ?res = Inl (OperationalError ''connection refused'')"
    by code_simp
  then have eq: "?res = (Inl (OperationalError ''connection refused''), fst (snd ?res), snd (snd ?res))"
    by (metis prod.collapse)
  from save_error_keeps_new_updated [OF Event_is_entity eq]
  have "getattr (fst (snd ?res)) ''updated'' = DateTimeV 120" .
  with Event_is_entity loaded_event_updated err show ?thesis by simp
qed

section \<open>Claims on creating records\<close>

text \<open>
  C7. For every entity type, a record built without a value for \<^verbatim>\<open>inserted\<close> or for
  \<^verbatim>\<open>updated\<close> holds there the reading of the clock taken for the default, and a
  \<^verbatim>\<open>Client\<close> or \<^verbatim>\<open>ClientConfig\<close> built without a value for \<^verbatim>\<open>status\<close> holds the name
  \<^verbatim>\<open>PENDING\<close>. After a successful \<^verbatim>\<open>create\<close> the record still holds these, with \<^verbatim>\<open>updated\<close>
  the reading of the clock at the save.
\<close>

theorem creation_defaults:
  assumes "meta \<in> set entities"
  shows "(''inserted'' \<notin> fst ` set kwargs \<longrightarrow>
            getattr (init meta clock kwargs) ''inserted'' = DateTimeV (clock ''inserted''))
       \<and> (''updated'' \<notin> fst ` set kwargs \<longrightarrow>
            getattr (init meta clock kwargs) ''updated'' = DateTimeV (clock ''updated''))
       \<and> ((meta = Client \<or> meta = ClientConfig) \<and> ''status'' \<notin> fst ` set kwargs \<longrightarrow>
            getattr (init meta clock kwargs) ''status'' = TextV ''PENDING'')
       \<and> (create g meta ops clock now kwargs db = (Inr inst, db') \<longrightarrow>
            (''inserted'' \<notin> fst ` set kwargs \<longrightarrow>
               getattr inst ''inserted'' = DateTimeV (clock ''inserted''))
          \<and> getattr inst ''updated'' = DateTimeV now
          \<and> ((meta = Client \<or> meta = ClientConfig) \<and> ''status'' \<notin> fst ` set kwargs \<longrightarrow>
               getattr inst ''status'' = TextV ''PENDING''))"
proof -
  note ts = entities_default_timestamps [OF assms]
  note e = entities_updated(1,2) [OF assms]
  have 1: "''inserted'' \<notin> fst ` set kwargs \<longrightarrow>
      getattr (init meta clock kwargs) ''inserted'' = DateTimeV (clock ''inserted'')"
    by (simp add: init_keeps_default ts)
  have 2: "''updated'' \<notin> fst ` set kwargs \<longrightarrow>
      getattr (init meta clock kwargs) ''updated'' = DateTimeV (clock ''updated'')"
    by (simp add: init_keeps_default ts)
  have 3: "(meta = Client \<or> meta = ClientConfig) \<and> ''status'' \<notin> fst ` set kwargs \<longrightarrow>
      getattr (init meta clock kwargs) ''status'' = TextV ''PENDING''"
    by (auto simp: init_keeps_default status_default)
  have 4: "getattr inst ''inserted'' = getattr (init meta clock kwargs) ''inserted''
         \<and> getattr inst ''status'' = getattr (init meta clock kwargs) ''status''
         \<and> getattr inst ''updated'' = DateTimeV now"
    if c: "create g meta ops clock now kwargs db = (Inr inst, db')"
  proof -
    from create_result [OF c] obtain n inst0
      where s: "save g meta ops now True [] (init meta clock kwargs) db = (Inr n, inst0, db')"
        and i: "inst = inst0\<lparr>dirty := {}\<rparr>"
      by blast
    from s e have "getattr inst0 ''updated'' = DateTimeV now"
      by (intro save_stamps_updated [OF _ _ s]) auto
    moreover from s e have "getattr inst0 ''inserted'' = getattr (init meta clock kwargs) ''inserted''"
      by (intro save_getattr_other [OF s]) auto
    moreover from s e have "getattr inst0 ''status'' = getattr (init meta clock kwargs) ''status''"
      by (intro save_getattr_other [OF s]) auto
    ultimately show ?thesis by (simp add: i)
  qed
  from 1 2 3 4 show ?thesis by (intro conjI impI) auto
qed

theorem creation_defaults_witness:
  "Client \<in> set entities \<and> Event \<in> set entities
   \<and> ''inserted'' \<notin> fst ` set acme_kwargs \<and> ''updated'' \<notin> fst ` set acme_kwargs
   \<and> ''status'' \<notin> fst ` set acme_kwargs
   \<and> getattr (init Client (at_time 100) acme_kwargs) ''inserted'' = DateTimeV 100
   \<and> getattr (init Client (at_time 100) acme_kwargs) ''updated'' = DateTimeV 100
   \<and> getattr (init Client (at_time 100) acme_kwargs) ''status'' = TextV ''PENDING''
   \<and> ''inserted'' \<notin> fst ` set event_kwargs
   \<and> getattr (projr (fst (create model_py Event store_database (at_time 100) 105 event_kwargs
          event_store))) ''inserted'' = DateTimeV 100
   \<and> getattr (projr (fst (create model_py Event store_database (at_time 100) 105 event_kwargs
          event_store))) ''updated'' = DateTimeV 105"
proof -
  let ?c = "create model_py Event store_database (at_time 100) 105 event_kwargs event_store"
  have "\<not> isl (fst ?c)" by code_simp
  then have c: "?c = (Inr (projr (fst ?c)), snd ?c)"
    by (metis sum_is_Inr prod.collapse)
  have k: "''inserted'' \<notin> fst ` set acme_kwargs" "''updated'' \<notin> fst ` set acme_kwargs"
    "''status'' \<notin> fst ` set acme_kwargs"
    by (simp_all add: acme_kwargs_def)
  have ke: "''inserted'' \<notin> fst ` set event_kwargs"
    by (simp add: event_kwargs_def)
  from creation_defaults [OF Client_is_entity, of acme_kwargs "at_time 100" model_py
      store_database 105 event_store loaded_event event_store] k
  have a: "getattr (init Client (at_time 100) acme_kwargs) ''inserted'' = DateTimeV 100"
    "getattr (init Client (at_time 100) acme_kwargs) ''updated'' = DateTimeV 100"
    "getattr (init Client (at_time 100) acme_kwargs) ''status'' = TextV ''PENDING''"
    by (simp_all add: at_time_def)
  from creation_defaults [OF Event_is_entity, of event_kwargs "at_time 100" model_py
      store_database 105 event_store "projr (fst ?c)" "snd ?c"] c ke
  have b: "getattr (projr (fst ?c)) ''inserted'' = DateTimeV 100"
    "getattr (projr (fst ?c)) ''updated'' = DateTimeV 105"
    by (simp_all add: at_time_def)
  from Client_is_entity Event_is_entity k ke a b show ?thesis by (intro conjI)
qed

section \<open>Claims on fixed-point fields\<close>

text \<open>
  C5. \<^verbatim>\<open>ClientConfig.balance_floor\<close> is declared with 15 digits, 4 decimal places and
  rounding, \<^verbatim>\<open>Event.quantity\<close> with 12 digits, 4 decimal places and rounding. When a
  save that writes such a field succeeds (an insert or an update, on a database that
  keeps its rows), every row the database then holds under the key of the record has in
  that column the number the record held, rounded to 4 decimal places (half to even): a
  multiple of 1/10000 at most 1/20000 away from it. Every number below \<^verbatim>\<open>10 ** 23\<close> in
  size is converted so.
\<close>

theorem fixed_point_fields_stored_rounded:
  assumes "(meta, n) \<in> {(ClientConfig, ''balance_floor''), (Event, ''quantity'')}"
    and "keeps_rows ops"
    and "map_of (data self) n = Some (DecimalV x)"
    and "if only \<noteq> [] then n \<in> set only else force_insert \<or> n \<in> dirty self"
    and "save g meta ops now force_insert only self db = (Inr m, self', db')"
  shows "declared_type ClientConfig ''balance_floor'' = Some (DecimalField 15 4 True)
       \<and> declared_type Event ''quantity'' = Some (DecimalField 12 4 True)
       \<and> (\<exists>rs. select_rows ops (db_table meta) ''id'' (getattr self' ''id'') db' = (Inr rs, db')
             \<and> length rs = m
             \<and> (\<forall>r \<in> set rs.
                  map_of r n = Some (DecimalV (of_int (round_half_even (x * 10000)) / 10000))))
       \<and> \<bar>of_int (round_half_even (x * 10000)) / 10000 - x\<bar> \<le> 1 / 20000
       \<and> (\<forall>t. declared_type meta n = Some t \<and> \<bar>x\<bar> < 10 ^ 23 \<longrightarrow>
             field_db_value g t (DecimalV x)
               = Inr (DecimalV (of_int (round_half_even (x * 10000)) / 10000)))"
proof -
  from assms(1) have ent: "meta \<in> set entities"
    by (auto simp: entities_def)
  note e = entities_updated [OF ent]
  from assms(1) have nid: "n \<noteq> ''id''" and nup: "n \<noteq> ''updated''"
    by auto
  let ?s = "setattr meta self ''updated'' (DateTimeV now)"
  from assms(3) nup have v: "map_of (data ?s) n = Some (DecimalV x)"
    by (simp add: setattr_def map_of_dict_set)
  from assms(4) have w: "if only \<noteq> [] then n \<in> set only
      else force_insert \<or> \<not> only_save_dirty meta \<or> n \<in> dirty ?s"
    by (auto simp: setattr_def split: if_splits)
  from assms(5) have s: "Model_save g meta ops force_insert only ?s db = (Inr m, self', db')"
    by (simp add: save_def)
  from Model_save_stores [OF assms(2) s _ _ v w] e(2,3) nid obtain f u rs
    where f: "find (\<lambda>f. field_name f = n) (sorted_fields meta) = Some f"
      and u: "field_db_value g (field_type f) (DecimalV x) = Inr u"
      and sel: "select_rows ops (db_table meta) ''id'' (getattr self' ''id'') db' = (Inr rs, db')"
      and len: "length rs = m"
      and all: "\<forall>r \<in> set rs. map_of r n = Some u"
    by auto
  from assms(1) fixed_point_declarations f
  have "\<exists>digits. field_type f = DecimalField digits 4 True"
    by (auto simp: declared_type_def)
  with u have "decimal_db_value 4 True x = Inr u" by auto
  from decimal_db_value_rounded [OF this]
  have "u = DecimalV (of_int (round_half_even (x * 10000)) / 10000)" by simp
  with sel len all have stored: "\<exists>rs. select_rows ops (db_table meta) ''id'' (getattr self' ''id'') db'
        = (Inr rs, db') \<and> length rs = m
      \<and> (\<forall>r \<in> set rs. map_of r n = Some (DecimalV (of_int (round_half_even (x * 10000)) / 10000)))"
    by blast
  have total: "field_db_value g t (DecimalV x)
      = Inr (DecimalV (of_int (round_half_even (x * 10000)) / 10000))"
    if t: "declared_type meta n = Some t" and x: "\<bar>x\<bar> < 10 ^ 23" for t
  proof -
    from assms(1) t fixed_point_declarations
    have tt: "field_db_value g t (DecimalV x) = decimal_db_value 4 True x"
      by auto
    from x have "\<bar>x\<bar> * 10 ^ 4 < 10 ^ 27" by simp
    from quantize_succeeds [OF this] obtain y where "quantize 4 x = Inr y" by blast
    then have "\<exists>w. decimal_db_value 4 True x = Inr w"
      by (simp add: decimal_db_value_def)
    then obtain w where w: "decimal_db_value 4 True x = Inr w" by blast
    from decimal_db_value_rounded [OF w] w tt show ?thesis by simp
  qed
  from fixed_point_declarations stored round_to_four_near [of x] total show ?thesis
    by (intro conjI allI impI) blast+
qed

theorem fixed_point_fields_stored_rounded_witness:
  "(Event, ''quantity'') \<in> {(ClientConfig, ''balance_floor''), (Event, ''quantity'')}
   \<and> keeps_rows store_database
   \<and> map_of (data (init Event (at_time 100) event_kwargs)) ''quantity''
       = Some (DecimalV (1234565 / 100000))
   \<and> fst (save model_py Event store_database 105 True [] (init Event (at_time 100) event_kwargs)
        event_store) = Inr 1
   \<and> fst (store_select ''events'' ''id'' (IntV 4)
        (snd (snd (save model_py Event store_database 105 True []
           (init Event (at_time 100) event_kwargs) event_store))))
       = Inr [[(''inserted'', DateTimeV 100), (''updated'', DateTimeV 105),
               (''event_batch_id'', IntV 1), (''quantity'', DecimalV (123456 / 10000)),
               (''event_timestamp'', DateTimeV 95), (''id'', IntV 4)]]
   \<and> map_of (hd (projr (fst (store_select ''events'' ''id'' (IntV 4)
        (snd (snd (save model_py Event store_database 105 True []
           (init Event (at_time 100) event_kwargs) event_store))))))) ''quantity''
       = Some (DecimalV (123456 / 10000))"
proof -
  let ?self = "init Event (at_time 100) event_kwargs"
  let ?res = "save model_py Event store_database 105 True [] ?self event_store"
  let ?sel = "store_select ''events'' ''id'' (IntV 4) (snd (snd ?res))"
  have m: "(Event, ''quantity'') \<in> {(ClientConfig, ''balance_floor''), (Event, ''quantity'')}"
    by simp
  have v: "map_of (data ?self) ''quantity'' = Some (DecimalV (1234565 / 100000))"
    by code_simp
  have w: "if ([] :: string list) \<noteq> [] then ''quantity'' \<in> set []
           else True \<or> ''quantity'' \<in> dirty ?self"
    by simp
  have ok: "fst ?res = Inr 1"
    by code_simp
  then have eq: "?res = (Inr 1, fst (snd ?res), snd (snd ?res))"
    by (metis prod.collapse)
  have k: "getattr (fst (snd ?res)) ''id'' = IntV 4"
    by code_simp
  have rows: "fst ?sel
      = Inr [[(''inserted'', DateTimeV 100), (''updated'', DateTimeV 105),
              (''event_batch_id'', IntV 1), (''quantity'', DecimalV (123456 / 10000)),
              (''event_timestamp'', DateTimeV 95), (''id'', IntV 4)]]"
    by code_simp
  have r: "round_half_even (1234565 / 100000 * 10000) = 123456"
    by code_simp
  have t: "db_table Event = ''events''"
    by (simp add: Event_def entity_def)
  from fixed_point_fields_stored_rounded [OF m store_keeps_rows v w eq]
  obtain rs where sel: "select_rows store_database (db_table Event) ''id''
        (getattr (fst (snd ?res)) ''id'') (snd (snd ?res)) = (Inr rs, snd (snd ?res))"
    and len: "length rs = 1"
    and all: "\<forall>r \<in> set rs. map_of r ''quantity''
        = Some (DecimalV (of_int (round_half_even (1234565 / 100000 * 10000)) / 10000))"
    by blast
  have sr: "select_rows store_database = store_select"
    by (simp add: store_database_def)
  from sel have "?sel = (Inr rs, snd (snd ?res))"
    by (simp only: sr k t)
  then have rs: "rs = projr (fst ?sel)"
    by simp
  from len have "hd rs \<in> set rs"
    by (cases rs) simp_all
  with all r have "map_of (hd rs) ''quantity'' = Some (DecimalV (123456 / 10000))"
    by simp
  with rs have q: "map_of (hd (projr (fst ?sel))) ''quantity'' = Some (DecimalV (123456 / 10000))"
    by simp
  from m store_keeps_rows v ok rows q show ?thesis by (intro conjI)
qed

section \<open>Claims on creating and reloading\<close>

text \<open>
  C4, as the code has it. For every entity type, on a database that keeps its rows,
  create a record with given field values and load it by the key it got. For a given
  field: \<^verbatim>\<open>updated\<close> holds the reading of the clock at the save, whatever value was
  given; an integer, text, timestamp, date or foreign key field other than \<^verbatim>\<open>updated\<close>
  holds the given value, the key when the given key is not \<^verbatim>\<open>None\<close>; a rounding
  fixed-point field holds the given number rounded to the declared places. Nothing is
  said of enum fields.
\<close>

theorem create_get_round_trip:
  assumes "meta \<in> set entities" and "keeps_rows ops"
    and "f \<in> set (sorted_fields meta)" and "field_name f = n"
    and "distinct (map fst kwargs)" and "(n, v) \<in> set kwargs"
    and "create g meta ops clock now kwargs db = (Inr inst, db1)"
    and "get g meta ops (getattr inst ''id'') db1 = (Inr reloaded, db2)"
  shows "(n = ''updated'' \<longrightarrow> getattr reloaded n = DateTimeV now)
       \<and> (n \<noteq> ''updated'' \<and> (n = ''id'' \<longrightarrow> v \<noteq> NoneV)
            \<and> field_type f \<in> {IntegerField, CharField, TextField, DateTimeField, DateField}
                \<union> range ForeignKeyField \<longrightarrow>
            getattr reloaded n = v)
       \<and> (\<forall>digits places x.
            n \<noteq> ''updated'' \<and> field_type f = DecimalField digits places True \<and> v = DecimalV x \<longrightarrow>
            getattr reloaded n
              = DecimalV (of_int (round_half_even (x * 10 ^ places)) / 10 ^ places))"
proof -
  note ent = assms(1)
  note e = entities_updated [OF ent]
  let ?i = "init meta clock kwargs"
  let ?s = "setattr meta ?i ''updated'' (DateTimeV now)"
  have nf: "n \<in> set (field_names meta)"
    using assms(3,4) by (auto simp: field_names_def)
  have upd: "getattr reloaded n = DateTimeV now" if "n = ''updated''"
  proof -
    from that e(1) have "map_of (data ?s) (field_name f) = Some (DateTimeV now)"
      by (simp add: assms(4) setattr_def map_of_dict_set)
    from create_get_field [OF ent assms(2,3) this assms(7,8)] that assms(4) obtain w
      where 1: "field_db_value g (field_type f) (DateTimeV now) = Inr w"
        and 2: "field_python_value g (field_type f) w = Inr (getattr reloaded n)"
      by auto
    have "field_type f = DateTimeField"
      using ent assms(3) that assms(4) by (intro entities_updated_type) simp_all
    with 1 2 show ?thesis by auto
  qed
  have written: "map_of (data ?s) (field_name f) = Some v" if "n \<noteq> ''updated''"
    using init_given [OF assms(5,6) nf] that
    by (simp add: assms(4) setattr_def map_of_dict_set)
  have plain: "getattr reloaded n = v"
    if nu: "n \<noteq> ''updated''" and kv: "n = ''id'' \<longrightarrow> v \<noteq> NoneV"
      and ty: "field_type f \<in> {IntegerField, CharField, TextField, DateTimeField, DateField}
             \<union> range ForeignKeyField"
  proof -
    from create_get_field [OF ent assms(2,3) written [OF nu] assms(7,8)] assms(4) obtain w k
      where 1: "field_db_value g (field_type f) v = Inr w"
        and 2: "w \<noteq> NoneV \<and> n = ''id'' \<longrightarrow> k = w"
        and 3: "field_python_value g (field_type f) (if n = ''id'' then k else w)
                  = Inr (getattr reloaded n)"
      by auto
    from db_value_plain [OF 1 ty] have wv: "w = v" .
    with 2 kv have "(if n = ''id'' then k else w) = v" by auto
    with 3 have "field_python_value g (field_type f) v = Inr (getattr reloaded n)" by simp
    from python_value_plain [OF this ty] show ?thesis .
  qed
  have dec: "getattr reloaded n
      = DecimalV (of_int (round_half_even (x * 10 ^ places)) / 10 ^ places)"
    if nu: "n \<noteq> ''updated''" and ty: "field_type f = DecimalField digits places True"
      and vx: "v = DecimalV x"
    for digits places x
  proof -
    have nid: "n \<noteq> ''id''"
    proof
      assume "n = ''id''"
      with ent assms(3,4) have "field_type f = IntegerField"
        by (intro entities_id_type) simp_all
      with ty show False by simp
    qed
    from create_get_field [OF ent assms(2,3) written [OF nu] assms(7,8)] assms(4) nid obtain w
      where 1: "field_db_value g (field_type f) v = Inr w"
        and 2: "field_python_value g (field_type f) w = Inr (getattr reloaded n)"
      by auto
    from 1 2 ty vx show ?thesis
      by (intro decimal_written_then_read [of g digits places x w]) simp_all
  qed
  from upd plain dec show ?thesis
    by (intro conjI impI allI) blast+
qed

theorem create_get_round_trip_witness:
  "Event \<in> set entities \<and> keeps_rows store_database
   \<and> distinct (map fst keyed_event_kwargs)
   \<and> (''id'', IntV 9) \<in> set keyed_event_kwargs
   \<and> (''updated'', DateTimeV 7) \<in> set keyed_event_kwargs
   \<and> (''quantity'', DecimalV (1234565 / 100000)) \<in> set keyed_event_kwargs
   \<and> (''event_timestamp'', DateTimeV 95) \<in> set keyed_event_kwargs
   \<and> create_then_get model_py Event store_database (at_time 100) 105 keyed_event_kwargs
        event_store ''id'' = Inr (IntV 9)
   \<and> create_then_get model_py Event store_database (at_time 100) 105 keyed_event_kwargs
        event_store ''updated'' = Inr (DateTimeV 105)
   \<and> create_then_get model_py Event store_database (at_time 100) 105 keyed_event_kwargs
        event_store ''quantity'' = Inr (DecimalV (123456 / 10000))
   \<and> create_then_get model_py Event store_database (at_time 100) 105 keyed_event_kwargs
        event_store ''event_timestamp'' = Inr (DateTimeV 95)"
proof -
  let ?c = "create model_py Event store_database (at_time 100) 105 keyed_event_kwargs event_store"
  let ?inst = "projr (fst ?c)"
  let ?g = "get model_py Event store_database (getattr ?inst ''id'') (snd ?c)"
  let ?r = "projr (fst ?g)"
  have "\<not> isl (fst ?c)" by code_simp
  then have c: "?c = (Inr ?inst, snd ?c)"
    by (metis sum_is_Inr prod.collapse)
  have "\<not> isl (fst ?g)" by code_simp
  then have g: "?g = (Inr ?r, snd ?g)"
    by (metis sum_is_Inr prod.collapse)
  have d: "distinct (map fst keyed_event_kwargs)"
    and k1: "(''id'', IntV 9) \<in> set keyed_event_kwargs"
    and k2: "(''updated'', DateTimeV 7) \<in> set keyed_event_kwargs"
    and k3: "(''quantity'', DecimalV (1234565 / 100000)) \<in> set keyed_event_kwargs"
    and k4: "(''event_timestamp'', DateTimeV 95) \<in> set keyed_event_kwargs"
    by (simp_all add: keyed_event_kwargs_def event_kwargs_def)
  have f1: "fld ''id'' IntegerField \<in> set (sorted_fields Event)"
    and f2: "with_default DT_now (fld ''updated'' DateTimeField) \<in> set (sorted_fields Event)"
    and f3: "fld ''quantity'' (DecimalField 12 4 True) \<in> set (sorted_fields Event)"
    and f4: "fld ''event_timestamp'' DateTimeField \<in> set (sorted_fields Event)"
    by (simp_all add: Event_def entity_def)
  have n1: "field_name (fld ''id'' IntegerField) = ''id''"
    and n2: "field_name (with_default DT_now (fld ''updated'' DateTimeField)) = ''updated''"
    and n3: "field_name (fld ''quantity'' (DecimalField 12 4 True)) = ''quantity''"
    and n4: "field_name (fld ''event_timestamp'' DateTimeField) = ''event_timestamp''"
    by (simp_all add: fld_def with_default_def)
  have r: "round_half_even (1234565 / 100000 * 10 ^ 4) = 123456"
    by code_simp
  from create_get_round_trip [OF Event_is_entity store_keeps_rows f1 n1 d k1 c g]
  have r1: "getattr ?r ''id'' = IntV 9"
    by (simp add: fld_def)
  from create_get_round_trip [OF Event_is_entity store_keeps_rows f2 n2 d k2 c g]
  have r2: "getattr ?r ''updated'' = DateTimeV 105"
    by simp
  have t3: "field_type (fld ''quantity'' (DecimalField 12 4 True)) = DecimalField 12 4 True"
    by (simp add: fld_def)
  have u3: "''quantity'' \<noteq> ''updated''"
    by simp
  from create_get_round_trip [OF Event_is_entity store_keeps_rows f3 n3 d k3 c g] t3 u3
  have "getattr ?r ''quantity''
      = DecimalV (of_int (round_half_even (1234565 / 100000 * 10 ^ 4)) / 10 ^ 4)"
    by blast
  also have "\<dots> = DecimalV (123456 / 10000)"
    by (simp only: r) simp
  finally have r3: "getattr ?r ''quantity'' = DecimalV (123456 / 10000)" .
  from create_get_round_trip [OF Event_is_entity store_keeps_rows f4 n4 d k4 c g]
  have r4: "getattr ?r ''event_timestamp'' = DateTimeV 95"
    by (simp add: fld_def)
  have pk: "primary_key Event = ''id''"
    by (simp add: Event_def entity_def)
  have ctg: "create_then_get model_py Event store_database (at_time 100) 105 keyed_event_kwargs
      event_store n = Inr (getattr ?r n)" for n
    unfolding create_then_get_def pk by (subst c, simp, subst g, simp)
  from Event_is_entity store_keeps_rows d k1 k2 k3 k4 r1 r2 r3 r4 show ?thesis
    by (simp only: ctg simp_thms)
qed

text \<open>
  C4 as stated fails on the timestamp and on a key given as \<^verbatim>\<open>None\<close>: an event is
  created with \<^verbatim>\<open>updated\<close> 7 and the key \<^verbatim>\<open>None\<close> when the clock reads 105, and the
  record read back holds 105 in \<^verbatim>\<open>updated\<close> and the key the database assigned.
\<close>

theorem create_get_updated_counterexample:
  "(''updated'', DateTimeV 7) \<in> set unkeyed_event_kwargs
   \<and> (''id'', NoneV) \<in> set unkeyed_event_kwargs
   \<and> create_then_get model_py Event store_database (at_time 100) 105 unkeyed_event_kwargs
        event_store ''updated'' = Inr (DateTimeV 105)
   \<and> create_then_get model_py Event store_database (at_time 100) 105 unkeyed_event_kwargs
        event_store ''id'' = Inr (IntV 4)"
  by code_simp

end
